theory Spec2Isabelle
  imports Main
begin

text \<open>
  A model of the registration, attendance and feedback handlers of the campus event
  backend (backend/app.py) and of the validators they call (backend/utils/validators.py).
  A handler is a function from the store and the request to a response and the store
  afterwards; an error response is a value, and every \<^verbatim>\<open>execute_query\<close> call is counted.
\<close>

section \<open>Request payloads and the Python operations applied to them\<close>

text \<open>
  A request body is the dictionary that \<^verbatim>\<open>request.get_json()\<close> returns. Its values are
  JSON values; the model covers null, booleans, integers and strings (floats, lists and
  nested objects are left out). The dictionary is the list of its items, each key once.
  A body that is \<^verbatim>\<open>None\<close> and a body that is the empty dictionary take the same branch
  of \<^verbatim>\<open>if not data\<close>, so both are the empty list.
\<close>

datatype jval = JNull | JBool bool | JInt int | JStr string

type_synonym payload = "(string \<times> jval) list"

text \<open>Python truthiness of a value, as used by \<^verbatim>\<open>not data[field]\<close>.\<close>

fun truthy :: "jval \<Rightarrow> bool" where
  "truthy JNull = False"
| "truthy (JBool b) = b"
| "truthy (JInt n) = (n \<noteq> 0)"
| "truthy (JStr s) = (s \<noteq> [])"

text \<open>\<^verbatim>\<open>data.get(field)\<close>: a missing key reads as \<^verbatim>\<open>None\<close>.\<close>

definition dict_get :: "payload \<Rightarrow> string \<Rightarrow> jval" where
  "dict_get data field = (case map_of data field of None \<Rightarrow> JNull | Some v \<Rightarrow> v)"

text \<open>\<^verbatim>\<open>field not in data or not data[field]\<close>\<close>

definition absent_or_falsy :: "payload \<Rightarrow> string \<Rightarrow> bool" where
  "absent_or_falsy data field = (case map_of data field of None \<Rightarrow> True | Some v \<Rightarrow> \<not> truthy v)"

text \<open>\<^verbatim>\<open>field not in data or data[field] is None\<close>\<close>

definition absent_or_none :: "payload \<Rightarrow> string \<Rightarrow> bool" where
  "absent_or_none data field = (case map_of data field of None \<Rightarrow> True | Some v \<Rightarrow> v = JNull)"

text \<open>
  Identifiers are UUIDs; a UUID is the number it denotes. Timestamps are points on one
  integer time line (the application clock and the store's clock read the same line).
  A string is a list of characters and \<open>length\<close> counts them, as \<^verbatim>\<open>len\<close> does.
\<close>

type_synonym uuid = nat
type_synonym timestamp = int

text \<open>
  A \<^verbatim>\<open>datetime\<close>: the wall-clock reading in microseconds and the offset of its time zone
  from UTC, \<open>None\<close> for a naive value.
\<close>

record datetime =
  wall :: int
  utcoffset :: "int option"

text \<open>
  The library functions the code calls and the model does not define. Each is a
  parameter of the model:
  \<^item> \<open>uuid_ok v\<close> says that \<^verbatim>\<open>uuid.UUID(str(v))\<close> does not raise \<^verbatim>\<open>ValueError\<close>;
  \<^item> \<open>int_of_str s\<close> is \<^verbatim>\<open>int(s)\<close> on a string, \<open>None\<close> when it raises \<^verbatim>\<open>ValueError\<close>;
  \<^item> \<open>fromisoformat s\<close> is \<^verbatim>\<open>datetime.fromisoformat(s)\<close>, \<open>None\<close> when it raises
    \<^verbatim>\<open>ValueError\<close>.
\<close>

record pylib =
  uuid_ok :: "jval \<Rightarrow> bool"
  int_of_str :: "string \<Rightarrow> int option"
  fromisoformat :: "string \<Rightarrow> datetime option"

text \<open>
  \<^verbatim>\<open>int(v)\<close> under \<^verbatim>\<open>except (ValueError, TypeError)\<close>: \<open>None\<close> stands for either exception.
\<close>

fun py_int :: "pylib \<Rightarrow> jval \<Rightarrow> int option" where
  "py_int L JNull = None"
| "py_int L (JBool b) = Some (if b then 1 else 0)"
| "py_int L (JInt n) = Some n"
| "py_int L (JStr s) = int_of_str L s"

text \<open>\<^verbatim>\<open>str.lower\<close> on characters below 256: the ASCII and the Latin-1 capital letters.\<close>

definition lower_char :: "char \<Rightarrow> char" where
  "lower_char c =
     (let n = (of_char c :: nat) in
      if (65 \<le> n \<and> n \<le> 90) \<or> (192 \<le> n \<and> n \<le> 214) \<or> (216 \<le> n \<and> n \<le> 222)
      then char_of (n + 32) else c)"

definition lower :: "string \<Rightarrow> string" where
  "lower s = map lower_char s"

text \<open>\<^verbatim>\<open>word in text\<close> on strings: \<open>word\<close> occurs in \<open>text\<close> as a contiguous run.\<close>

fun starts_with :: "string \<Rightarrow> string \<Rightarrow> bool" where
  "starts_with [] t = True"
| "starts_with (w # ws) [] = False"
| "starts_with (w # ws) (c # cs) = (w = c \<and> starts_with ws cs)"

fun contains :: "string \<Rightarrow> string \<Rightarrow> bool" where
  "contains w [] = (w = [])"
| "contains w (c # cs) = (starts_with w (c # cs) \<or> contains w cs)"

datatype exn =
    TypeError
  | AttributeError
  | UniqueViolation
  | ForeignKeyViolation
  | NotNullViolation
  | DataError

text \<open>The dictionary \<^verbatim>\<open>{'valid': ..., 'message': ...}\<close> a validator returns, or the
  exception that leaves it.\<close>

datatype verdict = Valid string | Invalid string | Raised exn

fun is_valid :: "verdict \<Rightarrow> bool" where
  "is_valid (Valid m) = True"
| "is_valid (Invalid m) = False"
| "is_valid (Raised x) = False"

section \<open>Validation layer (utils/validators.py)\<close>

definition validate_registration_data :: "pylib \<Rightarrow> payload \<Rightarrow> verdict" where
  "validate_registration_data L data =
     (if data = [] then Invalid ''No data provided''
      else if absent_or_falsy data ''event_id'' then Invalid ''Missing required field: event_id''
      else if absent_or_falsy data ''student_id'' then Invalid ''Missing required field: student_id''
      else if \<not> uuid_ok L (dict_get data ''event_id'') then Invalid ''Invalid ID format''
      else if \<not> uuid_ok L (dict_get data ''student_id'') then Invalid ''Invalid ID format''
      else Valid ''Valid registration data'')"

definition inappropriate_words :: "string list" where
  "inappropriate_words = [''spam'', ''hate'', ''abuse'']"

text \<open>
  The two comment checks of \<^verbatim>\<open>validate_feedback_data\<close>. \<^verbatim>\<open>len\<close> of a truthy value that is
  not a string raises \<^verbatim>\<open>TypeError\<close>, which the validator does not catch.
\<close>

definition check_comment :: "jval \<Rightarrow> verdict" where
  "check_comment c =
     (if \<not> truthy c then Valid ''Valid feedback data''
      else case c of
        JStr s \<Rightarrow>
          if length s > 1000 then Invalid ''Comment must be 1000 characters or less''
          else if list_ex (\<lambda>w. contains w (lower s)) inappropriate_words
            then Invalid ''Comment contains inappropriate content''
          else Valid ''Valid feedback data''
      | _ \<Rightarrow> Raised TypeError)"

definition validate_feedback_data :: "pylib \<Rightarrow> payload \<Rightarrow> verdict" where
  "validate_feedback_data L data =
     (if data = [] then Invalid ''No data provided''
      else if absent_or_none data ''attendance_id''
        then Invalid ''Missing required field: attendance_id''
      else if absent_or_none data ''rating'' then Invalid ''Missing required field: rating''
      else if \<not> uuid_ok L (dict_get data ''attendance_id'')
        then Invalid ''Invalid attendance ID format''
      else case py_int L (dict_get data ''rating'') of
        None \<Rightarrow> Invalid ''Rating must be a valid number between 1 and 5''
      | Some rating \<Rightarrow>
          if rating < 1 \<or> rating > 5 then Invalid ''Rating must be between 1 and 5''
          else check_comment (dict_get data ''comment''))"

definition valid_methods :: "string list" where
  "valid_methods = [''manual'', ''qr_code'', ''rfid'']"

definition validate_attendance_data :: "pylib \<Rightarrow> payload \<Rightarrow> verdict" where
  "validate_attendance_data L data =
     (if data = [] then Invalid ''No data provided''
      else if absent_or_falsy data ''registration_id''
        then Invalid ''Missing required field: registration_id''
      else if \<not> uuid_ok L (dict_get data ''registration_id'')
        then Invalid ''Invalid registration ID format''
      else if truthy (dict_get data ''check_in_method'') \<and>
              dict_get data ''check_in_method'' \<notin> set (map JStr valid_methods)
        then Invalid ''Invalid check-in method. Must be one of: manual, qr_code, rfid''
      else Valid ''Valid attendance data'')"

text \<open>
  Ordering of two datetimes. Python compares two naive values by their readings and two
  aware values by their instants, and raises \<^verbatim>\<open>TypeError\<close> for a naive and an aware value.
\<close>

definition comparable :: "datetime \<Rightarrow> datetime \<Rightarrow> bool" where
  "comparable a b \<longleftrightarrow> (utcoffset a = None) = (utcoffset b = None)"

definition instant :: "datetime \<Rightarrow> int" where
  "instant d = (case utcoffset d of None \<Rightarrow> wall d | Some off \<Rightarrow> wall d - off)"

definition hour :: int where
  "hour = 3600000000"

text \<open>\<^verbatim>\<open>s.replace('Z', '+00:00')\<close>\<close>

definition replace_Z :: "string \<Rightarrow> string" where
  "replace_Z s = concat (map (\<lambda>c. if c = CHR ''Z'' then ''+00:00'' else [c]) s)"

text \<open>
  \<^verbatim>\<open>datetime.fromisoformat(v.replace('Z', '+00:00'))\<close> inside \<^verbatim>\<open>try ... except ValueError\<close>
  that returns the message \<open>msg\<close>: a value that is not a string has no \<^verbatim>\<open>replace\<close>, and
  the \<^verbatim>\<open>AttributeError\<close> is not caught.
\<close>

fun parse_iso :: "pylib \<Rightarrow> string \<Rightarrow> jval \<Rightarrow> verdict + datetime" where
  "parse_iso L msg (JStr s) =
     (case fromisoformat L (replace_Z s) of None \<Rightarrow> Inl (Invalid msg) | Some d \<Rightarrow> Inr d)"
| "parse_iso L msg JNull = Inl (Raised AttributeError)"
| "parse_iso L msg (JBool b) = Inl (Raised AttributeError)"
| "parse_iso L msg (JInt n) = Inl (Raised AttributeError)"

definition required_fields :: "bool \<Rightarrow> string list" where
  "required_fields is_update =
     [''title'', ''event_type'', ''start_datetime'', ''end_datetime''] @
     (if is_update then [] else [''college_id''])"

definition valid_event_types :: "string list" where
  "valid_event_types = [''hackathon'', ''workshop'', ''tech_talk'', ''fest'']"

text \<open>
  The first \<^verbatim>\<open>try\<close> block of \<^verbatim>\<open>validate_event_data\<close>: start and end are parsed, the end must
  be after the start, and the start at most one hour before \<open>now\<close>, which is
  \<^verbatim>\<open>datetime.now()\<close> given the start's time zone. The block passes the start on.
\<close>

definition check_schedule :: "pylib \<Rightarrow> timestamp \<Rightarrow> payload \<Rightarrow> verdict + datetime" where
  "check_schedule L now data =
     (case parse_iso L ''Invalid datetime format. Use ISO format (YYYY-MM-DDTHH:MM:SS)''
             (dict_get data ''start_datetime'') of
        Inl v \<Rightarrow> Inl v
      | Inr start_datetime \<Rightarrow>
         (case parse_iso L ''Invalid datetime format. Use ISO format (YYYY-MM-DDTHH:MM:SS)''
                 (dict_get data ''end_datetime'') of
            Inl v \<Rightarrow> Inl v
          | Inr end_datetime \<Rightarrow>
              if \<not> comparable end_datetime start_datetime then Inl (Raised TypeError)
              else if instant end_datetime \<le> instant start_datetime
                then Inl (Invalid ''End datetime must be after start datetime'')
              else if wall start_datetime < now - hour
                then Inl (Invalid ''Event start time cannot be in the past'')
              else Inr start_datetime))"

text \<open>The later blocks return a verdict, or \<open>None\<close> when the validator goes on.\<close>

definition check_deadline :: "pylib \<Rightarrow> datetime \<Rightarrow> payload \<Rightarrow> verdict option" where
  "check_deadline L start_datetime data =
     (if \<not> truthy (dict_get data ''registration_deadline'') then None
      else case parse_iso L ''Invalid registration deadline format''
                  (dict_get data ''registration_deadline'') of
        Inl v \<Rightarrow> Some v
      | Inr reg_deadline \<Rightarrow>
          if \<not> comparable reg_deadline start_datetime then Some (Raised TypeError)
          else if instant reg_deadline > instant start_datetime
            then Some (Invalid ''Registration deadline must be before event start time'')
          else None)"

definition check_capacity :: "pylib \<Rightarrow> payload \<Rightarrow> verdict option" where
  "check_capacity L data =
     (if dict_get data ''max_capacity'' = JNull then None
      else case py_int L (dict_get data ''max_capacity'') of
        None \<Rightarrow> Some (Invalid ''Maximum capacity must be a valid number'')
      | Some capacity \<Rightarrow>
          if capacity \<le> 0 then Some (Invalid ''Maximum capacity must be a positive number'')
          else if capacity > 10000
            then Some (Invalid ''Maximum capacity seems unreasonably high (>10,000)'')
          else None)"

text \<open>\<^verbatim>\<open>if data.get(field) and len(data[field]) > n\<close>\<close>

definition check_length :: "payload \<Rightarrow> string \<Rightarrow> nat \<Rightarrow> string \<Rightarrow> verdict option" where
  "check_length data field n msg =
     (if \<not> truthy (dict_get data field) then None
      else case dict_get data field of
        JStr s \<Rightarrow> if length s > n then Some (Invalid msg) else None
      | _ \<Rightarrow> Some (Raised TypeError))"

definition check_optional :: "pylib \<Rightarrow> payload \<Rightarrow> verdict" where
  "check_optional L data =
     (case check_capacity L data of
        Some v \<Rightarrow> v
      | None \<Rightarrow>
         (case check_length data ''location'' 300 ''Location must be 300 characters or less'' of
            Some v \<Rightarrow> v
          | None \<Rightarrow>
             (case check_length data ''description'' 2000
                     ''Description must be 2000 characters or less'' of
                Some v \<Rightarrow> v
              | None \<Rightarrow> Valid ''Valid event data'')))"

definition validate_event_data :: "pylib \<Rightarrow> timestamp \<Rightarrow> bool \<Rightarrow> payload \<Rightarrow> verdict" where
  "validate_event_data L now is_update data =
     (if data = [] then Invalid ''No data provided''
      else case find (absent_or_falsy data) (required_fields is_update) of
        Some field \<Rightarrow> Invalid (''Missing required field: '' @ field)
      | None \<Rightarrow>
          if dict_get data ''event_type'' \<notin> set (map JStr valid_event_types)
            then Invalid
              ''Invalid event type. Must be one of: hackathon, workshop, tech_talk, fest''
          else (case dict_get data ''title'' of
                  JStr t \<Rightarrow>
                    (if length t > 200 then Invalid ''Title must be 200 characters or less''
                     else (case check_schedule L now data of
                             Inl v \<Rightarrow> v
                           | Inr start_datetime \<Rightarrow>
                              (case check_deadline L start_datetime data of
                                 Some v \<Rightarrow> v
                               | None \<Rightarrow> check_optional L data)))
                | _ \<Rightarrow> Raised TypeError))"

section \<open>The relational store\<close>

record event =
  event_id :: uuid
  title :: string
  status :: string
  max_capacity :: "int option"
  registration_deadline :: "timestamp option"

record student =
  student_id :: uuid
  student_name :: string

record registration =
  registration_id :: uuid
  reg_event_id :: uuid
  reg_student_id :: uuid
  registered_at :: timestamp
  reg_status :: string
  cancelled_at :: "timestamp option"
  cancellation_reason :: "string option"

text \<open>The check-in method and the feedback columns hold the value that was bound, \<open>JNull\<close>
  for SQL NULL.\<close>

record attendance =
  attendance_id :: uuid
  att_registration_id :: uuid
  checked_in_at :: timestamp
  check_in_method :: jval
  feedback_rating :: jval
  feedback_comment :: jval
  feedback_submitted_at :: "timestamp option"

text \<open>
  The tables the handlers touch, the generator of fresh identifiers, and \<open>calls\<close>, the
  number of \<^verbatim>\<open>execute_query\<close> calls made so far. Every call is one transaction:
  committed when the statement succeeds, rolled back when it raises.
\<close>

record store =
  events :: "event list"
  students :: "student list"
  registrations :: "registration list"
  attendances :: "attendance list"
  next_id :: uuid
  calls :: nat

definition tick :: "store \<Rightarrow> store" where
  "tick db = db\<lparr>calls := Suc (calls db)\<rparr>"

text \<open>
  Modelled from the spec: the declarations of the tables (schema.sql is not among the
  sources). The spec says that identifiers are opaque unique tokens, that a registration
  is "unique per (event, student) pair", has "foreign keys to both" and is inserted "with
  status=registered and a server-assigned timestamp", and that there is "at most one
  Attendance per Registration". Two things the spec leaves open are parameters:
  \<^item> \<open>pg_uuid s\<close> is the identifier the store reads from the text \<open>s\<close> bound to an
    identifier column, \<open>None\<close> when the store rejects the text;
  \<^item> \<open>uq_covers\<close> says which rows the uniqueness constraint on the pair holds: every row
    for a plain constraint, the rows of status registered for a partial one.
  The store generates the identifier of a new row from \<open>next_id\<close>. It does not convert or
  check the values bound to the check-in method and the feedback columns.
\<close>

record schema =
  pg_uuid :: "string \<Rightarrow> uuid option"
  uq_covers :: "registration \<Rightarrow> bool"

text \<open>
  Modelled from the spec: how the store reads a value bound to an identifier column. A
  null is SQL NULL, which equals no identifier; a string is read by \<open>pg_uuid\<close>; a boolean
  or a number is not an identifier, and the statement raises.
\<close>

datatype bound_id = NullId | Id uuid | NotAnId

fun bind_id :: "schema \<Rightarrow> jval \<Rightarrow> bound_id" where
  "bind_id S JNull = NullId"
| "bind_id S (JStr s) = (case pg_uuid S s of None \<Rightarrow> NotAnId | Some k \<Rightarrow> Id k)"
| "bind_id S (JBool b) = NotAnId"
| "bind_id S (JInt n) = NotAnId"

text \<open>
  \<^verbatim>\<open>COUNT(r.registration_id)\<close> over the left join of the event with its registrations of
  status \<^verbatim>\<open>'registered'\<close>.
\<close>

definition current_registrations :: "store \<Rightarrow> uuid \<Rightarrow> nat" where
  "current_registrations db e =
     length (filter (\<lambda>r. reg_event_id r = e \<and> reg_status r = ''registered'') (registrations db))"

text \<open>The check query of \<^verbatim>\<open>register_for_event\<close>: the event's row with the count, or no row.\<close>

definition event_info :: "store \<Rightarrow> uuid \<Rightarrow> (event \<times> nat) option" where
  "event_info db e =
     (case find (\<lambda>x. event_id x = e) (events db) of
        None \<Rightarrow> None
      | Some ev \<Rightarrow> Some (ev, current_registrations db e))"

text \<open>
  Modelled from the spec: the uniqueness constraint of the registrations table on the
  (event, student) pair, over the rows that \<open>uq_covers\<close> holds.
\<close>

definition unique_violation :: "schema \<Rightarrow> registration list \<Rightarrow> registration \<Rightarrow> bool" where
  "unique_violation S rows new \<longleftrightarrow>
     uq_covers S new \<and>
     list_ex (\<lambda>r. uq_covers S r \<and> reg_event_id r = reg_event_id new \<and>
                  reg_student_id r = reg_student_id new) rows"

text \<open>
  Modelled from the spec: the column defaults of the registrations table. A new row has
  a generated identifier, the status registered and the store's time.
\<close>

definition new_registration :: "store \<Rightarrow> timestamp \<Rightarrow> uuid \<Rightarrow> uuid \<Rightarrow> registration" where
  "new_registration db db_now e s =
     \<lparr>registration_id = next_id db, reg_event_id = e, reg_student_id = s,
      registered_at = db_now, reg_status = ''registered'',
      cancelled_at = None, cancellation_reason = None\<rparr>"

text \<open>
  \<^verbatim>\<open>INSERT INTO registrations (event_id, student_id) VALUES (%s, %s) RETURNING ...\<close>. The
  uniqueness constraint is checked when the row is inserted, the foreign keys to the
  event and to the student after it.
\<close>

definition insert_registration ::
  "schema \<Rightarrow> timestamp \<Rightarrow> store \<Rightarrow> jval \<Rightarrow> jval \<Rightarrow> exn + (registration \<times> store)" where
  "insert_registration S db_now db ev st =
     (case (bind_id S ev, bind_id S st) of
        (Id e, Id s) \<Rightarrow>
          (let new = new_registration db db_now e s in
           if unique_violation S (registrations db) new then Inl UniqueViolation
           else if \<not> list_ex (\<lambda>x. event_id x = e) (events db) then Inl ForeignKeyViolation
           else if \<not> list_ex (\<lambda>x. student_id x = s) (students db) then Inl ForeignKeyViolation
           else Inr (new, db\<lparr>registrations := registrations db @ [new],
                              next_id := Suc (next_id db)\<rparr>))
      | (NotAnId, _) \<Rightarrow> Inl DataError
      | (_, NotAnId) \<Rightarrow> Inl DataError
      | _ \<Rightarrow> Inl NotNullViolation)"

text \<open>
  \<^verbatim>\<open>UPDATE registrations SET status = 'cancelled', cancelled_at = CURRENT_TIMESTAMP,
  cancellation_reason = 'Cancelled by user' WHERE registration_id = %s AND status =
  'registered' RETURNING ...\<close>: the rows the statement changes and the first row it returns.
\<close>

definition cancel_matches :: "uuid \<Rightarrow> registration \<Rightarrow> bool" where
  "cancel_matches k r \<longleftrightarrow> registration_id r = k \<and> reg_status r = ''registered''"

definition cancelled :: "timestamp \<Rightarrow> registration \<Rightarrow> registration" where
  "cancelled db_now r =
     r\<lparr>reg_status := ''cancelled'', cancelled_at := Some db_now,
       cancellation_reason := Some ''Cancelled by user''\<rparr>"

definition update_cancel :: "timestamp \<Rightarrow> store \<Rightarrow> uuid \<Rightarrow> registration option \<times> store" where
  "update_cancel db_now db k =
     (map_option (cancelled db_now) (find (cancel_matches k) (registrations db)),
      db\<lparr>registrations :=
           map (\<lambda>r. if cancel_matches k r then cancelled db_now r else r) (registrations db)\<rparr>)"

text \<open>
  The check query of \<^verbatim>\<open>mark_attendance\<close>: the registration of status registered joined
  with its event and its student; the handler uses the event's title and the student's
  name of the first row.
\<close>

definition active_registration :: "store \<Rightarrow> uuid \<Rightarrow> (registration \<times> string \<times> string) option" where
  "active_registration db k =
     (case find (\<lambda>r. registration_id r = k \<and> reg_status r = ''registered'') (registrations db) of
        None \<Rightarrow> None
      | Some r \<Rightarrow>
         (case (find (\<lambda>x. event_id x = reg_event_id r) (events db),
                find (\<lambda>x. student_id x = reg_student_id r) (students db)) of
            (Some ev, Some st) \<Rightarrow> Some (r, title ev, student_name st)
          | _ \<Rightarrow> None))"

text \<open>\<^verbatim>\<open>SELECT attendance_id FROM attendance WHERE registration_id = %s\<close>\<close>

definition existing_attendance :: "store \<Rightarrow> uuid \<Rightarrow> attendance option" where
  "existing_attendance db k = find (\<lambda>a. att_registration_id a = k) (attendances db)"

text \<open>
  Modelled from the spec: the column defaults of the attendance table. A new row has a
  generated identifier, the store's time and no feedback.
\<close>

definition new_attendance :: "store \<Rightarrow> timestamp \<Rightarrow> uuid \<Rightarrow> jval \<Rightarrow> attendance" where
  "new_attendance db db_now k how =
     \<lparr>attendance_id = next_id db, att_registration_id = k, checked_in_at = db_now,
      check_in_method = how, feedback_rating = JNull, feedback_comment = JNull,
      feedback_submitted_at = None\<rparr>"

text \<open>
  \<^verbatim>\<open>INSERT INTO attendance (registration_id, check_in_method) VALUES (%s, %s) RETURNING ...\<close>,
  with the uniqueness constraint on the registration and the foreign key to it, both
  modelled from the spec.
\<close>

definition insert_attendance ::
  "timestamp \<Rightarrow> store \<Rightarrow> uuid \<Rightarrow> jval \<Rightarrow> exn + (attendance \<times> store)" where
  "insert_attendance db_now db k how =
     (if list_ex (\<lambda>a. att_registration_id a = k) (attendances db) then Inl UniqueViolation
      else if \<not> list_ex (\<lambda>r. registration_id r = k) (registrations db) then Inl ForeignKeyViolation
      else Inr (new_attendance db db_now k how,
                db\<lparr>attendances := attendances db @ [new_attendance db db_now k how],
                   next_id := Suc (next_id db)\<rparr>))"

text \<open>
  The check query of \<^verbatim>\<open>submit_feedback\<close>: the attendance row joined with its registration
  and the registration's event; the handler uses the event's title.
\<close>

definition attendance_info :: "store \<Rightarrow> uuid \<Rightarrow> (attendance \<times> string) option" where
  "attendance_info db k =
     (case find (\<lambda>a. attendance_id a = k) (attendances db) of
        None \<Rightarrow> None
      | Some a \<Rightarrow>
         (case find (\<lambda>r. registration_id r = att_registration_id a) (registrations db) of
            None \<Rightarrow> None
          | Some r \<Rightarrow>
             (case find (\<lambda>x. event_id x = reg_event_id r) (events db) of
                None \<Rightarrow> None
              | Some ev \<Rightarrow> Some (a, title ev))))"

text \<open>
  \<^verbatim>\<open>UPDATE attendance SET feedback_rating = %s, feedback_comment = %s,
  feedback_submitted_at = CURRENT_TIMESTAMP WHERE attendance_id = %s RETURNING ...\<close>
\<close>

definition with_feedback :: "timestamp \<Rightarrow> jval \<Rightarrow> jval \<Rightarrow> attendance \<Rightarrow> attendance" where
  "with_feedback db_now rating comment a =
     a\<lparr>feedback_rating := rating, feedback_comment := comment,
       feedback_submitted_at := Some db_now\<rparr>"

definition update_feedback ::
  "timestamp \<Rightarrow> store \<Rightarrow> uuid \<Rightarrow> jval \<Rightarrow> jval \<Rightarrow> attendance option \<times> store" where
  "update_feedback db_now db k rating comment =
     (map_option (with_feedback db_now rating comment)
        (find (\<lambda>a. attendance_id a = k) (attendances db)),
      db\<lparr>attendances :=
           map (\<lambda>a. if attendance_id a = k then with_feedback db_now rating comment a else a)
             (attendances db)\<rparr>)"

section \<open>Request handlers (backend/app.py)\<close>

text \<open>One constructor for each error response the handlers below return.\<close>

datatype error =
    ValidationError string
  | EventNotFound
  | EventInactive
  | DeadlinePassed
  | CapacityExceeded
  | DuplicateRegistration
  | RegistrationNotFound
  | RegistrationNotActive
  | MissingRegistrationId
  | AlreadyCheckedIn
  | AttendanceNotFound
  | FailedToSubmit
  | Unexpected exn

fun status_code :: "error \<Rightarrow> nat" where
  "status_code (ValidationError m) = 400"
| "status_code EventNotFound = 404"
| "status_code EventInactive = 400"
| "status_code DeadlinePassed = 400"
| "status_code CapacityExceeded = 400"
| "status_code DuplicateRegistration = 409"
| "status_code RegistrationNotFound = 404"
| "status_code RegistrationNotActive = 404"
| "status_code MissingRegistrationId = 400"
| "status_code AlreadyCheckedIn = 409"
| "status_code AttendanceNotFound = 404"
| "status_code FailedToSubmit = 500"
| "status_code (Unexpected x) = 500"

text \<open>The text under the key \<^verbatim>\<open>'error'\<close>; for an unexpected exception it is \<^verbatim>\<open>str(e)\<close>, which
  the source does not fix.\<close>

fun error_message :: "error \<Rightarrow> string option" where
  "error_message (ValidationError m) = Some m"
| "error_message EventNotFound = Some ''Event not found''"
| "error_message EventInactive = Some ''Event is not active for registration''"
| "error_message DeadlinePassed = Some ''Registration deadline has passed''"
| "error_message CapacityExceeded = Some ''Event is at full capacity''"
| "error_message DuplicateRegistration = Some ''Student is already registered for this event''"
| "error_message RegistrationNotFound = Some ''Registration not found or already cancelled''"
| "error_message RegistrationNotActive = Some ''Registration not found or not active''"
| "error_message MissingRegistrationId = Some ''Missing registration_id''"
| "error_message AlreadyCheckedIn = Some ''Student is already checked in for this event''"
| "error_message AttendanceNotFound = Some ''Attendance record not found''"
| "error_message FailedToSubmit = Some ''Failed to submit feedback''"
| "error_message (Unexpected x) = None"

text \<open>
  \<^verbatim>\<open>register_for_event\<close>. \<open>now\<close> is \<^verbatim>\<open>datetime.now()\<close> in the handler, \<open>db_now\<close> the store's
  \<^verbatim>\<open>CURRENT_TIMESTAMP\<close> at the insert. \<^verbatim>\<open>if event_info['max_capacity'] and ...\<close> is Python
  truthiness: a capacity of 0 reads as no capacity. The insert returns its row, so the
  branch \<^verbatim>\<open>'Failed to register for event'\<close> is never taken. An exception of the store is
  caught by \<^verbatim>\<open>except Exception\<close>, which answers 409 to a violated uniqueness constraint
  and 500 to anything else.
\<close>

definition deadline_passed :: "timestamp \<Rightarrow> event \<Rightarrow> bool" where
  "deadline_passed now ev = (case registration_deadline ev of None \<Rightarrow> False | Some d \<Rightarrow> now > d)"

definition at_capacity :: "event \<Rightarrow> nat \<Rightarrow> bool" where
  "at_capacity ev n = (case max_capacity ev of None \<Rightarrow> False | Some c \<Rightarrow> c \<noteq> 0 \<and> int n \<ge> c)"

definition register_for_event ::
  "pylib \<Rightarrow> schema \<Rightarrow> timestamp \<Rightarrow> timestamp \<Rightarrow> store \<Rightarrow> payload
     \<Rightarrow> (error + registration) \<times> store" where
  "register_for_event L S now db_now db data =
     (case validate_registration_data L data of
        Invalid m \<Rightarrow> (Inl (ValidationError m), db)
      | Raised x \<Rightarrow> (Inl (Unexpected x), db)
      | Valid m \<Rightarrow>
         (case bind_id S (dict_get data ''event_id'') of
            NotAnId \<Rightarrow> (Inl (Unexpected DataError), tick db)
          | NullId \<Rightarrow> (Inl EventNotFound, tick db)
          | Id e \<Rightarrow>
             (case event_info db e of
                None \<Rightarrow> (Inl EventNotFound, tick db)
              | Some (ev, n) \<Rightarrow>
                  if status ev \<noteq> ''active'' then (Inl EventInactive, tick db)
                  else if deadline_passed now ev then (Inl DeadlinePassed, tick db)
                  else if at_capacity ev n then (Inl CapacityExceeded, tick db)
                  else
                    (case insert_registration S db_now (tick (tick db))
                            (dict_get data ''event_id'') (dict_get data ''student_id'') of
                       Inl UniqueViolation \<Rightarrow> (Inl DuplicateRegistration, tick (tick db))
                     | Inl x \<Rightarrow> (Inl (Unexpected x), tick (tick db))
                     | Inr (row, db') \<Rightarrow> (Inr row, db')))))"

text \<open>\<^verbatim>\<open>cancel_registration\<close>; the identifier is the text of the URL path segment.\<close>

definition cancel_registration ::
  "schema \<Rightarrow> timestamp \<Rightarrow> store \<Rightarrow> string \<Rightarrow> (error + registration) \<times> store" where
  "cancel_registration S db_now db rid =
     (case bind_id S (JStr rid) of
        Id k \<Rightarrow>
          (case update_cancel db_now (tick db) k of
             (None, db') \<Rightarrow> (Inl RegistrationNotFound, db')
           | (Some row, db') \<Rightarrow> (Inr row, db'))
      | _ \<Rightarrow> (Inl (Unexpected DataError), tick db))"

text \<open>
  \<^verbatim>\<open>mark_attendance\<close>. The handler checks only that the body is not empty and has the key
  \<^verbatim>\<open>registration_id\<close>; \<^verbatim>\<open>data.get('check_in_method', 'manual')\<close> is the value of the key when it
  is there and \<^verbatim>\<open>'manual'\<close> otherwise. The response is the attendance row with the event's
  title and the student's name.
\<close>

definition requested_method :: "payload \<Rightarrow> jval" where
  "requested_method data =
     (case map_of data ''check_in_method'' of None \<Rightarrow> JStr ''manual'' | Some v \<Rightarrow> v)"

definition mark_attendance ::
  "schema \<Rightarrow> timestamp \<Rightarrow> store \<Rightarrow> payload \<Rightarrow> (error + attendance \<times> string \<times> string) \<times> store" where
  "mark_attendance S db_now db data =
     (case map_of data ''registration_id'' of
        None \<Rightarrow> (Inl MissingRegistrationId, db)
      | Some rid \<Rightarrow>
         (let how = requested_method data in
          case bind_id S rid of
            NotAnId \<Rightarrow> (Inl (Unexpected DataError), tick db)
          | NullId \<Rightarrow> (Inl RegistrationNotActive, tick db)
          | Id k \<Rightarrow>
             (case active_registration db k of
                None \<Rightarrow> (Inl RegistrationNotActive, tick db)
              | Some (r, event_title, name) \<Rightarrow>
                 (case existing_attendance db k of
                    Some a \<Rightarrow> (Inl AlreadyCheckedIn, tick (tick db))
                  | None \<Rightarrow>
                     (case insert_attendance db_now (tick (tick (tick db))) k how of
                        Inl x \<Rightarrow> (Inl (Unexpected x), tick (tick (tick db)))
                      | Inr (row, db') \<Rightarrow> (Inr (row, event_title, name), db'))))))"

text \<open>
  \<^verbatim>\<open>submit_feedback\<close>. \<^verbatim>\<open>data.get('comment', '')\<close> is the value of the key when it is there and
  the empty string otherwise.
\<close>

definition submitted_comment :: "payload \<Rightarrow> jval" where
  "submitted_comment data = (case map_of data ''comment'' of None \<Rightarrow> JStr [] | Some v \<Rightarrow> v)"

definition submit_feedback ::
  "pylib \<Rightarrow> schema \<Rightarrow> timestamp \<Rightarrow> store \<Rightarrow> payload \<Rightarrow> (error + attendance \<times> string) \<times> store" where
  "submit_feedback L S db_now db data =
     (case validate_feedback_data L data of
        Invalid m \<Rightarrow> (Inl (ValidationError m), db)
      | Raised x \<Rightarrow> (Inl (Unexpected x), db)
      | Valid m \<Rightarrow>
         (let rating = dict_get data ''rating''; comment = submitted_comment data in
          case bind_id S (dict_get data ''attendance_id'') of
            NotAnId \<Rightarrow> (Inl (Unexpected DataError), tick db)
          | NullId \<Rightarrow> (Inl AttendanceNotFound, tick db)
          | Id k \<Rightarrow>
             (case attendance_info db k of
                None \<Rightarrow> (Inl AttendanceNotFound, tick db)
              | Some (a, event_title) \<Rightarrow>
                 (case update_feedback db_now (tick (tick db)) k rating comment of
                    (None, db') \<Rightarrow> (Inl FailedToSubmit, db')
                  | (Some row, db') \<Rightarrow> (Inr (row, event_title), db')))))"

section \<open>Sequences of requests\<close>

text \<open>
  The requests that change registrations and attendances, each with the clock readings
  it is served at, and the store after serving a list of them one after the other.
\<close>

datatype request =
    Register timestamp timestamp payload
  | Cancel timestamp string
  | Attend timestamp payload
  | Feedback timestamp payload

fun serve :: "pylib \<Rightarrow> schema \<Rightarrow> store \<Rightarrow> request \<Rightarrow> store" where
  "serve L S db (Register now db_now data) = snd (register_for_event L S now db_now db data)"
| "serve L S db (Cancel db_now rid) = snd (cancel_registration S db_now db rid)"
| "serve L S db (Attend db_now data) = snd (mark_attendance S db_now db data)"
| "serve L S db (Feedback db_now data) = snd (submit_feedback L S db_now db data)"

fun run :: "pylib \<Rightarrow> schema \<Rightarrow> store \<Rightarrow> request list \<Rightarrow> store" where
  "run L S db [] = db"
| "run L S db (r # rs) = run L S (serve L S db r) rs"

text \<open>The rows of two stores are the same; only the count of calls may differ.\<close>

definition same_rows :: "store \<Rightarrow> store \<Rightarrow> bool" where
  "same_rows a b \<longleftrightarrow>
     events a = events b \<and> students a = students b \<and> registrations a = registrations b \<and>
     attendances a = attendances b \<and> next_id a = next_id b"

text \<open>Every event with a positive capacity has at most that many registered registrations.\<close>

definition within_capacity :: "store \<Rightarrow> bool" where
  "within_capacity db \<longleftrightarrow>
     list_all (\<lambda>ev. case max_capacity ev of
                      None \<Rightarrow> True
                    | Some c \<Rightarrow> 0 < c \<longrightarrow> int (current_registrations db (event_id ev)) \<le> c)
       (events db)"

text \<open>The registrations of status registered of one (event, student) pair.\<close>

definition registered_rows :: "store \<Rightarrow> uuid \<Rightarrow> uuid \<Rightarrow> registration list" where
  "registered_rows db e s =
     filter (\<lambda>r. reg_event_id r = e \<and> reg_student_id r = s \<and> reg_status r = ''registered'')
       (registrations db)"

definition one_registered_per_pair :: "store \<Rightarrow> bool" where
  "one_registered_per_pair db \<longleftrightarrow>
     list_all (\<lambda>r. length (registered_rows db (reg_event_id r) (reg_student_id r)) \<le> 1)
       (registrations db)"

definition attendance_rows :: "store \<Rightarrow> uuid \<Rightarrow> attendance list" where
  "attendance_rows db k = filter (\<lambda>a. att_registration_id a = k) (attendances db)"

definition one_attendance_per_registration :: "store \<Rightarrow> bool" where
  "one_attendance_per_registration db \<longleftrightarrow>
     list_all (\<lambda>a. length (attendance_rows db (att_registration_id a)) \<le> 1) (attendances db)"

text \<open>The uniqueness constraint holds at least the rows of status registered.\<close>

definition covers_registered :: "schema \<Rightarrow> bool" where
  "covers_registered S \<longleftrightarrow> (\<forall>r. reg_status r = ''registered'' \<longrightarrow> uq_covers S r)"

section \<open>The admission rules in the words of the specification\<close>

text \<open>
  Section 4.1 of the specification: "If Event.registration_deadline is set, current time
  must be \<open>\<le>\<close> deadline" and "If Event.max_capacity is set, current registered-count
  must be \<open><\<close> max_capacity". Section 3: the capacity is optional and, when present, a
  positive integer.
\<close>

definition spec_deadline_open :: "timestamp \<Rightarrow> event \<Rightarrow> bool" where
  "spec_deadline_open now ev = (case registration_deadline ev of None \<Rightarrow> True | Some d \<Rightarrow> now \<le> d)"

definition spec_has_room :: "event \<Rightarrow> nat \<Rightarrow> bool" where
  "spec_has_room ev n = (case max_capacity ev of None \<Rightarrow> True | Some c \<Rightarrow> int n < c)"

definition positive_capacity :: "event \<Rightarrow> bool" where
  "positive_capacity ev = (case max_capacity ev of None \<Rightarrow> True | Some c \<Rightarrow> 0 < c)"

section \<open>A small store for running the handlers\<close>

text \<open>
  One instance of the parameters: the identifiers the library and the store read, a
  partial uniqueness constraint, and a store with one event of capacity 2 whose
  registration closes at time 100, and three students.
\<close>

definition demo_ids :: "(string \<times> uuid) list" where
  "demo_ids =
     [(''00000000-0000-0000-0000-0000000000e1'', 7),
      (''00000000-0000-0000-0000-0000000000a1'', 2),
      (''00000000-0000-0000-0000-0000000000b2'', 3),
      (''00000000-0000-0000-0000-0000000000c3'', 4),
      (''00000000-0000-0000-0000-000000000010'', 10),
      (''00000000-0000-0000-0000-000000000011'', 11),
      (''00000000-0000-0000-0000-000000000012'', 12),
      (''00000000-0000-0000-0000-0000000000ff'', 255)]"

definition demo_times :: "(string \<times> datetime) list" where
  "demo_times =
     [(''2030-05-01T09:00:00'', \<lparr>wall = 9 * hour, utcoffset = None\<rparr>),
      (''2030-05-01T10:00:00'', \<lparr>wall = 10 * hour, utcoffset = None\<rparr>),
      (''2030-05-01T12:00:00'', \<lparr>wall = 12 * hour, utcoffset = None\<rparr>)]"

definition lib0 :: pylib where
  "lib0 = \<lparr>uuid_ok = (\<lambda>v. case v of JStr s \<Rightarrow> map_of demo_ids s \<noteq> None | _ \<Rightarrow> False),
           int_of_str = (\<lambda>s. None),
           fromisoformat = map_of demo_times\<rparr>"

definition schema0 :: schema where
  "schema0 = \<lparr>pg_uuid = map_of demo_ids, uq_covers = (\<lambda>r. reg_status r = ''registered'')\<rparr>"

definition ev0 :: event where
  "ev0 = \<lparr>event_id = 7, title = ''Hack night'', status = ''active'',
           max_capacity = Some 2, registration_deadline = Some 100\<rparr>"

definition db0 :: store where
  "db0 = \<lparr>events = [ev0],
          students = [\<lparr>student_id = 2, student_name = ''Asha''\<rparr>,
                      \<lparr>student_id = 3, student_name = ''Bala''\<rparr>,
                      \<lparr>student_id = 4, student_name = ''Chitra''\<rparr>],
          registrations = [], attendances = [], next_id = 10, calls = 0\<rparr>"

definition register_request :: "string \<Rightarrow> payload" where
  "register_request student =
     [(''event_id'', JStr ''00000000-0000-0000-0000-0000000000e1''),
      (''student_id'', JStr student)]"

definition req_a :: payload where
  "req_a = register_request ''00000000-0000-0000-0000-0000000000a1''"

definition req_b :: payload where
  "req_b = register_request ''00000000-0000-0000-0000-0000000000b2''"

definition req_c :: payload where
  "req_c = register_request ''00000000-0000-0000-0000-0000000000c3''"

text \<open>
  The scenario of the specification: students A and B register, C is turned away, A's
  registration (number 10) is cancelled, and C registers. \<open>reg_a2\<close> is the row that a
  second request of A makes after the cancellation.
\<close>

definition reg_a :: registration where
  "reg_a = \<lparr>registration_id = 10, reg_event_id = 7, reg_student_id = 2, registered_at = 51,
            reg_status = ''registered'', cancelled_at = None, cancellation_reason = None\<rparr>"

definition reg_b :: registration where
  "reg_b = \<lparr>registration_id = 11, reg_event_id = 7, reg_student_id = 3, registered_at = 61,
            reg_status = ''registered'', cancelled_at = None, cancellation_reason = None\<rparr>"

definition db1 :: store where
  "db1 = db0\<lparr>registrations := [reg_a], next_id := 11, calls := 2\<rparr>"

definition db2 :: store where
  "db2 = db0\<lparr>registrations := [reg_a, reg_b], next_id := 12, calls := 4\<rparr>"

definition db3 :: store where
  "db3 = db0\<lparr>registrations := [cancelled 70 reg_a, reg_b], next_id := 12, calls := 6\<rparr>"

definition reg_c :: registration where
  "reg_c = \<lparr>registration_id = 12, reg_event_id = 7, reg_student_id = 4, registered_at = 81,
            reg_status = ''registered'', cancelled_at = None, cancellation_reason = None\<rparr>"

definition db4 :: store where
  "db4 = db0\<lparr>registrations := [cancelled 70 reg_a, reg_b, reg_c], next_id := 13, calls := 8\<rparr>"

definition reg_a2 :: registration where
  "reg_a2 = \<lparr>registration_id = 12, reg_event_id = 7, reg_student_id = 2, registered_at = 81,
             reg_status = ''registered'', cancelled_at = None, cancellation_reason = None\<rparr>"

definition rid_a :: string where
  "rid_a = ''00000000-0000-0000-0000-000000000010''"

definition scenario :: "request list" where
  "scenario = [Register 50 51 req_a, Register 60 61 req_b, Register 65 66 req_c,
               Cancel 70 rid_a, Register 80 81 req_c]"

text \<open>
  Attendance and feedback: A checks in on the store with the registrations of A and B,
  and then rates the event.
\<close>

definition att_req_a :: payload where
  "att_req_a = [(''registration_id'', JStr rid_a)]"

definition att_a :: attendance where
  "att_a = \<lparr>attendance_id = 12, att_registration_id = 10, checked_in_at = 90,
            check_in_method = JStr ''manual'', feedback_rating = JNull,
            feedback_comment = JNull, feedback_submitted_at = None\<rparr>"

definition db5 :: store where
  "db5 = db2\<lparr>attendances := [att_a], next_id := 13, calls := 7\<rparr>"

definition aid_a :: string where
  "aid_a = ''00000000-0000-0000-0000-000000000012''"

definition feedback_request :: "string \<Rightarrow> int \<Rightarrow> string \<Rightarrow> payload" where
  "feedback_request aid r c =
     [(''attendance_id'', JStr aid), (''rating'', JInt r), (''comment'', JStr c)]"

text \<open>An attendance body with a check-in method outside the three the validator accepts.\<close>

definition teleport_request :: "string \<Rightarrow> payload" where
  "teleport_request rid = [(''registration_id'', JStr rid), (''check_in_method'', JStr ''teleport'')]"

text \<open>An event from 10:00 to 12:00 with a registration deadline.\<close>

definition event_request :: "string \<Rightarrow> payload" where
  "event_request deadline =
     [(''title'', JStr ''Hack night''), (''event_type'', JStr ''hackathon''),
      (''start_datetime'', JStr ''2030-05-01T10:00:00''),
      (''end_datetime'', JStr ''2030-05-01T12:00:00''),
      (''college_id'', JStr ''00000000-0000-0000-0000-0000000000c0''),
      (''registration_deadline'', JStr deadline)]"

section \<open>Properties of the model\<close>

subsection \<open>Registering\<close>

lemma tick_rows [simp]:
  "events (tick db) = events db" "students (tick db) = students db"
  "registrations (tick db) = registrations db" "attendances (tick db) = attendances db"
  "next_id (tick db) = next_id db" "calls (tick db) = Suc (calls db)"
  by (simp_all add: tick_def)

lemma same_rows_tick [simp]: "same_rows (tick db) db'  = same_rows db db'"
  by (simp add: same_rows_def)

lemma same_rows_refl [simp]: "same_rows db db"
  by (simp add: same_rows_def)

lemma current_registrations_tick [simp]:
  "current_registrations (tick db) e = current_registrations db e"
  by (simp add: current_registrations_def)

lemma new_registration_tick [simp]:
  "new_registration (tick db) db_now e s = new_registration db db_now e s"
  by (simp add: new_registration_def)

lemma register_for_event_checked:
  assumes "validate_registration_data L data = Valid m"
    and "bind_id S (dict_get data ''event_id'') = Id e"
  shows "register_for_event L S now db_now db data =
     (case find (\<lambda>x. event_id x = e) (events db) of
        None \<Rightarrow> (Inl EventNotFound, tick db)
      | Some ev \<Rightarrow>
          if status ev \<noteq> ''active'' then (Inl EventInactive, tick db)
          else if deadline_passed now ev then (Inl DeadlinePassed, tick db)
          else if at_capacity ev (current_registrations db e) then (Inl CapacityExceeded, tick db)
          else (case insert_registration S db_now (tick (tick db))
                       (dict_get data ''event_id'') (dict_get data ''student_id'') of
                  Inl UniqueViolation \<Rightarrow> (Inl DuplicateRegistration, tick (tick db))
                | Inl x \<Rightarrow> (Inl (Unexpected x), tick (tick db))
                | Inr (row, db') \<Rightarrow> (Inr row, db')))"
  using assms by (simp add: register_for_event_def event_info_def split: option.splits)

lemma insert_registration_bound:
  assumes "bind_id S ev = Id e" and "bind_id S st = Id s"
  shows "insert_registration S db_now db ev st =
     (if unique_violation S (registrations db) (new_registration db db_now e s)
        then Inl UniqueViolation
      else if \<not> list_ex (\<lambda>x. event_id x = e) (events db) then Inl ForeignKeyViolation
      else if \<not> list_ex (\<lambda>x. student_id x = s) (students db) then Inl ForeignKeyViolation
      else Inr (new_registration db db_now e s,
                db\<lparr>registrations := registrations db @ [new_registration db db_now e s],
                   next_id := Suc (next_id db)\<rparr>))"
  using assms by (simp add: insert_registration_def Let_def)

lemma find_Some_list_ex: "find P xs = Some x \<Longrightarrow> list_ex P xs"
  by (induction xs) (auto split: if_splits)

lemma find_None_list_ex: "find P xs = None \<longleftrightarrow> \<not> list_ex P xs"
  by (induction xs) auto

text \<open>A failed registration leaves every row as it was.\<close>

lemma register_for_event_failure_rows:
  "fst (register_for_event L S now db_now db data) = Inl err \<Longrightarrow>
   same_rows (snd (register_for_event L S now db_now db data)) db"
  by (auto simp: register_for_event_def insert_registration_def Let_def
           split: verdict.splits bound_id.splits option.splits prod.splits if_splits sum.splits exn.splits)

text \<open>A payload the validator does not accept never reaches the store.\<close>

lemma register_for_event_rejected:
  "\<not> is_valid (validate_registration_data L data) \<Longrightarrow>
   snd (register_for_event L S now db_now db data) = db"
  by (cases "validate_registration_data L data") (simp_all add: register_for_event_def)

lemma submit_feedback_rejected:
  "\<not> is_valid (validate_feedback_data L data) \<Longrightarrow>
   snd (submit_feedback L S db_now db data) = db"
  by (cases "validate_feedback_data L data") (simp_all add: submit_feedback_def)

lemma register_for_event_success:
  assumes "fst (register_for_event L S now db_now db data) = Inr row"
  shows "\<exists>e s ev m.
           validate_registration_data L data = Valid m \<and>
           bind_id S (dict_get data ''event_id'') = Id e \<and>
           bind_id S (dict_get data ''student_id'') = Id s \<and>
           find (\<lambda>x. event_id x = e) (events db) = Some ev \<and>
           status ev = ''active'' \<and> \<not> deadline_passed now ev \<and>
           \<not> at_capacity ev (current_registrations db e) \<and>
           \<not> unique_violation S (registrations db) (new_registration db db_now e s) \<and>
           list_ex (\<lambda>x. student_id x = s) (students db) \<and>
           row = new_registration db db_now e s \<and>
           snd (register_for_event L S now db_now db data) =
             tick (tick db)\<lparr>registrations := registrations db @ [row],
                             next_id := Suc (next_id db)\<rparr>"
proof -
  obtain m where v: "validate_registration_data L data = Valid m"
    using assms by (cases "validate_registration_data L data") (simp_all add: register_for_event_def)
  obtain e where e: "bind_id S (dict_get data ''event_id'') = Id e"
    using assms v by (cases "bind_id S (dict_get data ''event_id'')") (simp_all add: register_for_event_def)
  note chk = register_for_event_checked [OF v e, of now db_now db]
  obtain ev where ev: "find (\<lambda>x. event_id x = e) (events db) = Some ev"
    using assms chk by (cases "find (\<lambda>x. event_id x = e) (events db)") simp_all
  have act: "status ev = ''active''" "\<not> deadline_passed now ev"
    "\<not> at_capacity ev (current_registrations db e)"
    using assms chk ev by (auto split: if_splits)
  obtain s where s: "bind_id S (dict_get data ''student_id'') = Id s"
    using assms chk ev act e
    by (cases "bind_id S (dict_get data ''student_id'')") (simp_all add: insert_registration_def)
  note ins = insert_registration_bound [OF e s, of db_now "tick (tick db)"]
  have "\<not> unique_violation S (registrations db) (new_registration db db_now e s)"
    and "list_ex (\<lambda>x. student_id x = s) (students db)"
    and "row = new_registration db db_now e s"
    and "snd (register_for_event L S now db_now db data) =
             tick (tick db)\<lparr>registrations := registrations db @ [row],
                             next_id := Suc (next_id db)\<rparr>"
    using assms chk ev act ins by (auto split: if_splits)
  with v e s ev act show ?thesis by blast
qed

lemma register_for_event_outcome:
  "(\<exists>err. fst (register_for_event L S now db_now db data) = Inl err) \<or>
   (\<exists>row. fst (register_for_event L S now db_now db data) = Inr row)"
  by (cases "fst (register_for_event L S now db_now db data)") auto

lemma register_for_event_events [simp]:
  "events (snd (register_for_event L S now db_now db data)) = events db"
proof (cases "fst (register_for_event L S now db_now db data)")
  case (Inl err)
  then show ?thesis using register_for_event_failure_rows [of L S now db_now db data err]
    by (simp add: same_rows_def)
next
  case (Inr row)
  then show ?thesis using register_for_event_success [of L S now db_now db data row]
    by auto
qed

lemma register_for_event_attendances [simp]:
  "attendances (snd (register_for_event L S now db_now db data)) = attendances db"
proof (cases "fst (register_for_event L S now db_now db data)")
  case (Inl err)
  then show ?thesis using register_for_event_failure_rows [of L S now db_now db data err]
    by (simp add: same_rows_def)
next
  case (Inr row)
  then show ?thesis using register_for_event_success [of L S now db_now db data row]
    by auto
qed

subsection \<open>Cancelling\<close>

lemma cancel_registration_bound:
  assumes "bind_id S (JStr rid) = Id k"
  shows "cancel_registration S db_now db rid =
     (case find (cancel_matches k) (registrations db) of
        None \<Rightarrow> (Inl RegistrationNotFound,
                  tick db\<lparr>registrations :=
                    map (\<lambda>r. if cancel_matches k r then cancelled db_now r else r) (registrations db)\<rparr>)
      | Some r \<Rightarrow> (Inr (cancelled db_now r),
                  tick db\<lparr>registrations :=
                    map (\<lambda>r. if cancel_matches k r then cancelled db_now r else r) (registrations db)\<rparr>))"
  using assms by (simp add: cancel_registration_def update_cancel_def split: option.splits)

lemma map_no_match: "\<not> list_ex P xs \<Longrightarrow> map (\<lambda>r. if P r then f r else r) xs = xs"
  by (induction xs) auto

lemma store_registrations_same [simp]: "db\<lparr>registrations := registrations db\<rparr> = db"
  by simp

lemma cancel_registration_other [simp]:
  "events (snd (cancel_registration S db_now db rid)) = events db"
  "students (snd (cancel_registration S db_now db rid)) = students db"
  "attendances (snd (cancel_registration S db_now db rid)) = attendances db"
  "next_id (snd (cancel_registration S db_now db rid)) = next_id db"
  by (auto simp: cancel_registration_def update_cancel_def split: bound_id.splits option.splits)

lemma cancel_registration_registrations:
  "registrations (snd (cancel_registration S db_now db rid)) = registrations db \<or>
   (\<exists>k. registrations (snd (cancel_registration S db_now db rid)) =
          map (\<lambda>r. if cancel_matches k r then cancelled db_now r else r) (registrations db))"
  by (auto simp: cancel_registration_def update_cancel_def split: bound_id.splits option.splits)

lemma not_registered_cancelled [simp]: "reg_status (cancelled db_now r) \<noteq> ''registered''"
  by (simp add: cancelled_def)

lemma cancelled_keys [simp]:
  "registration_id (cancelled db_now r) = registration_id r"
  "reg_event_id (cancelled db_now r) = reg_event_id r"
  "reg_student_id (cancelled db_now r) = reg_student_id r"
  by (simp_all add: cancelled_def)

lemma length_filter_map_le:
  assumes "\<And>x. P (f x) \<Longrightarrow> P x"
  shows "length (filter P (map f xs)) \<le> length (filter P xs)"
  using assms by (induction xs) auto

lemma cancel_current_registrations:
  "current_registrations (snd (cancel_registration S db_now db rid)) e \<le> current_registrations db e"
proof -
  have "length (filter (\<lambda>r. reg_event_id r = e \<and> reg_status r = ''registered'')
           (map (\<lambda>r. if cancel_matches k r then cancelled db_now r else r) (registrations db)))
        \<le> length (filter (\<lambda>r. reg_event_id r = e \<and> reg_status r = ''registered'') (registrations db))"
    for k
    by (rule length_filter_map_le) (auto split: if_splits)
  then show ?thesis
    using cancel_registration_registrations [of S db_now db rid]
    by (auto simp: current_registrations_def)
qed

lemma cancel_registered_rows:
  "length (registered_rows (snd (cancel_registration S db_now db rid)) e s)
     \<le> length (registered_rows db e s)"
proof -
  have "length (filter (\<lambda>r. reg_event_id r = e \<and> reg_student_id r = s \<and> reg_status r = ''registered'')
           (map (\<lambda>r. if cancel_matches k r then cancelled db_now r else r) (registrations db)))
        \<le> length (filter (\<lambda>r. reg_event_id r = e \<and> reg_student_id r = s \<and> reg_status r = ''registered'') (registrations db))"
    for k
    by (rule length_filter_map_le) (auto split: if_splits)
  then show ?thesis
    using cancel_registration_registrations [of S db_now db rid]
    by (auto simp: registered_rows_def)
qed

subsection \<open>Attendance and feedback\<close>

lemma mark_attendance_other [simp]:
  "events (snd (mark_attendance S db_now db data)) = events db"
  "students (snd (mark_attendance S db_now db data)) = students db"
  "registrations (snd (mark_attendance S db_now db data)) = registrations db"
  by (auto simp: mark_attendance_def insert_attendance_def Let_def
           split: bound_id.splits option.splits prod.splits sum.splits if_splits)

lemma mark_attendance_attendances:
  "attendances (snd (mark_attendance S db_now db data)) = attendances db \<or>
   (\<exists>k how. existing_attendance db k = None \<and>
      attendances (snd (mark_attendance S db_now db data)) =
        attendances db @ [new_attendance db db_now k how])"
  by (auto simp: mark_attendance_def insert_attendance_def Let_def new_attendance_def
           split: bound_id.splits option.splits prod.splits sum.splits if_splits)

lemma submit_feedback_other [simp]:
  "events (snd (submit_feedback L S db_now db data)) = events db"
  "students (snd (submit_feedback L S db_now db data)) = students db"
  "registrations (snd (submit_feedback L S db_now db data)) = registrations db"
  by (auto simp: submit_feedback_def update_feedback_def Let_def
           split: verdict.splits bound_id.splits option.splits prod.splits)

lemma submit_feedback_attendances:
  "attendances (snd (submit_feedback L S db_now db data)) = attendances db \<or>
   (\<exists>k rating comment.
      attendances (snd (submit_feedback L S db_now db data)) =
        map (\<lambda>a. if attendance_id a = k then with_feedback db_now rating comment a else a)
          (attendances db))"
  by (auto simp: submit_feedback_def update_feedback_def Let_def
           split: verdict.splits bound_id.splits option.splits prod.splits)

subsection \<open>Invariants of request sequences\<close>

lemma within_capacity_iff:
  "within_capacity db \<longleftrightarrow>
     (\<forall>ev\<in>set (events db). \<forall>c. max_capacity ev = Some c \<longrightarrow> 0 < c \<longrightarrow>
        int (current_registrations db (event_id ev)) \<le> c)"
  by (auto simp: within_capacity_def list_all_iff split: option.splits)

lemma one_registered_per_pair_iff:
  "one_registered_per_pair db \<longleftrightarrow> (\<forall>e s. length (registered_rows db e s) \<le> 1)"
proof
  assume inv: "one_registered_per_pair db"
  show "\<forall>e s. length (registered_rows db e s) \<le> 1"
  proof (intro allI)
    fix e s
    show "length (registered_rows db e s) \<le> 1"
    proof (cases "registered_rows db e s")
      case Nil
      then show ?thesis by simp
    next
      case (Cons r rs)
      then have "r \<in> set (registered_rows db e s)" by simp
      then have "r \<in> set (registrations db)" "reg_event_id r = e" "reg_student_id r = s"
        by (simp_all add: registered_rows_def)
      with inv show ?thesis
        by (auto simp: one_registered_per_pair_def list_all_iff)
    qed
  qed
next
  assume "\<forall>e s. length (registered_rows db e s) \<le> 1"
  then show "one_registered_per_pair db"
    by (simp add: one_registered_per_pair_def list_all_iff)
qed

lemma one_attendance_per_registration_iff:
  "one_attendance_per_registration db \<longleftrightarrow> (\<forall>k. length (attendance_rows db k) \<le> 1)"
proof
  assume inv: "one_attendance_per_registration db"
  show "\<forall>k. length (attendance_rows db k) \<le> 1"
  proof
    fix k
    show "length (attendance_rows db k) \<le> 1"
    proof (cases "attendance_rows db k")
      case Nil
      then show ?thesis by simp
    next
      case (Cons a as)
      then have "a \<in> set (attendance_rows db k)" by simp
      then have "a \<in> set (attendances db)" "att_registration_id a = k"
        by (simp_all add: attendance_rows_def)
      with inv show ?thesis
        by (auto simp: one_attendance_per_registration_def list_all_iff)
    qed
  qed
next
  assume "\<forall>k. length (attendance_rows db k) \<le> 1"
  then show "one_attendance_per_registration db"
    by (simp add: one_attendance_per_registration_def list_all_iff)
qed

lemma find_distinct_key:
  assumes "distinct (map f xs)" and "find (\<lambda>x. f x = k) xs = Some y"
    and "x \<in> set xs" and "f x = k"
  shows "x = y"
  using assms by (induction xs) (auto split: if_splits simp: image_iff)

lemma register_within_capacity:
  assumes pk: "distinct (map event_id (events db))" and inv: "within_capacity db"
  shows "within_capacity (snd (register_for_event L S now db_now db data))"
proof (cases "fst (register_for_event L S now db_now db data)")
  case (Inl err)
  then have "same_rows (snd (register_for_event L S now db_now db data)) db"
    by (rule register_for_event_failure_rows)
  with inv show ?thesis
    by (simp add: within_capacity_iff same_rows_def current_registrations_def)
next
  case (Inr row)
  from register_for_event_success [OF this]
  obtain e s ev where ev: "find (\<lambda>x. event_id x = e) (events db) = Some ev"
    and cap: "\<not> at_capacity ev (current_registrations db e)"
    and row: "row = new_registration db db_now e s"
    and db': "snd (register_for_event L S now db_now db data) =
             tick (tick db)\<lparr>registrations := registrations db @ [row],
                             next_id := Suc (next_id db)\<rparr>"
    by blast
  have count: "current_registrations (snd (register_for_event L S now db_now db data)) e' =
        current_registrations db e' + (if e' = e then 1 else 0)" for e'
    by (simp add: db' row current_registrations_def new_registration_def)
  show ?thesis
    unfolding within_capacity_iff
  proof (intro ballI allI impI)
    fix ev' c
    assume mem: "ev' \<in> set (events (snd (register_for_event L S now db_now db data)))"
      and c: "max_capacity ev' = Some c" "0 < c"
    from mem have mem': "ev' \<in> set (events db)" by simp
    with inv c have old: "int (current_registrations db (event_id ev')) \<le> c"
      by (simp add: within_capacity_iff)
    show "int (current_registrations (snd (register_for_event L S now db_now db data)) (event_id ev')) \<le> c"
    proof (cases "event_id ev' = e")
      case False
      with old show ?thesis by (simp add: count)
    next
      case True
      with pk ev mem' have "ev' = ev" by (rule_tac find_distinct_key) auto
      with cap c True have "int (current_registrations db e) < c"
        by (simp add: at_capacity_def)
      with True show ?thesis by (simp add: count)
    qed
  qed
qed

lemma cancel_within_capacity:
  assumes inv: "within_capacity db"
  shows "within_capacity (snd (cancel_registration S db_now db rid))"
  unfolding within_capacity_iff
proof (intro ballI allI impI)
  fix ev c
  assume "ev \<in> set (events (snd (cancel_registration S db_now db rid)))"
    and c: "max_capacity ev = Some c" "0 < c"
  then have "int (current_registrations db (event_id ev)) \<le> c"
    using inv by (simp add: within_capacity_iff)
  moreover have "current_registrations (snd (cancel_registration S db_now db rid)) (event_id ev)
      \<le> current_registrations db (event_id ev)"
    by (rule cancel_current_registrations)
  ultimately show "int (current_registrations (snd (cancel_registration S db_now db rid)) (event_id ev)) \<le> c"
    by linarith
qed

lemma serve_events [simp]: "events (serve L S db r) = events db"
  by (cases r) simp_all

lemma serve_within_capacity:
  assumes "distinct (map event_id (events db))" and "within_capacity db"
  shows "within_capacity (serve L S db r)"
proof (cases r)
  case (Register now db_now data)
  with assms show ?thesis by (simp add: register_within_capacity)
next
  case (Cancel db_now rid)
  with assms show ?thesis by (simp add: cancel_within_capacity)
next
  case (Attend db_now data)
  with assms show ?thesis by (simp add: within_capacity_iff current_registrations_def)
next
  case (Feedback db_now data)
  with assms show ?thesis by (simp add: within_capacity_iff current_registrations_def)
qed

lemma run_events [simp]: "events (run L S db rs) = events db"
  by (induction rs arbitrary: db) simp_all

lemma run_within_capacity:
  "distinct (map event_id (events db)) \<Longrightarrow> within_capacity db \<Longrightarrow> within_capacity (run L S db rs)"
proof (induction rs arbitrary: db)
  case Nil
  then show ?case by simp
next
  case (Cons r rs)
  have "within_capacity (serve L S db r)"
    using Cons.prems by (rule serve_within_capacity)
  moreover have "distinct (map event_id (events (serve L S db r)))"
    using Cons.prems by simp
  ultimately show ?case using Cons.IH by simp
qed



lemma registered_rows_empty:
  assumes "covers_registered S"
    and "\<not> unique_violation S (registrations db) (new_registration db db_now e s)"
  shows "registered_rows db e s = []"
proof -
  have "uq_covers S (new_registration db db_now e s)"
    using assms(1) by (simp add: covers_registered_def new_registration_def)
  with assms(2) have "\<forall>r\<in>set (registrations db).
      \<not> (uq_covers S r \<and> reg_event_id r = e \<and> reg_student_id r = s)"
    by (simp add: unique_violation_def list_ex_iff new_registration_def)
  with assms(1) show ?thesis
    by (auto simp: registered_rows_def covers_registered_def filter_empty_conv)
qed

lemma registered_rows_violation:
  assumes "covers_registered S" and "registered_rows db e s \<noteq> []"
  shows "unique_violation S (registrations db) (new_registration db db_now e s)"
  using assms registered_rows_empty by blast

lemma register_one_registered_per_pair:
  assumes cov: "covers_registered S" and inv: "one_registered_per_pair db"
  shows "one_registered_per_pair (snd (register_for_event L S now db_now db data))"
proof (cases "fst (register_for_event L S now db_now db data)")
  case (Inl err)
  then have "same_rows (snd (register_for_event L S now db_now db data)) db"
    by (rule register_for_event_failure_rows)
  with inv show ?thesis
    by (simp add: one_registered_per_pair_iff same_rows_def registered_rows_def)
next
  case (Inr row)
  from register_for_event_success [OF this]
  obtain e s where uq: "\<not> unique_violation S (registrations db) (new_registration db db_now e s)"
    and row: "row = new_registration db db_now e s"
    and db': "snd (register_for_event L S now db_now db data) =
             tick (tick db)\<lparr>registrations := registrations db @ [row],
                             next_id := Suc (next_id db)\<rparr>"
    by blast
  have none: "registered_rows db e s = []"
    using cov uq by (rule registered_rows_empty)
  have rows: "registered_rows (snd (register_for_event L S now db_now db data)) e' s' =
        registered_rows db e' s' @ (if e' = e \<and> s' = s then [row] else [])" for e' s'
    by (simp add: db' row registered_rows_def new_registration_def)
  show ?thesis
    unfolding one_registered_per_pair_iff
  proof (intro allI)
    fix e' s'
    from inv have "length (registered_rows db e' s') \<le> 1"
      by (simp add: one_registered_per_pair_iff)
    with none show "length (registered_rows (snd (register_for_event L S now db_now db data)) e' s') \<le> 1"
      by (auto simp: rows)
  qed
qed

lemma cancel_one_registered_per_pair:
  assumes "one_registered_per_pair db"
  shows "one_registered_per_pair (snd (cancel_registration S db_now db rid))"
  unfolding one_registered_per_pair_iff
proof (intro allI)
  fix e s
  have "length (registered_rows (snd (cancel_registration S db_now db rid)) e s)
     \<le> length (registered_rows db e s)"
    by (rule cancel_registered_rows)
  moreover have "length (registered_rows db e s) \<le> 1"
    using assms by (simp add: one_registered_per_pair_iff)
  ultimately show "length (registered_rows (snd (cancel_registration S db_now db rid)) e s) \<le> 1"
    by linarith
qed

lemma serve_one_registered_per_pair:
  assumes "covers_registered S" and "one_registered_per_pair db"
  shows "one_registered_per_pair (serve L S db r)"
proof (cases r)
  case (Register now db_now data)
  with assms show ?thesis by (simp add: register_one_registered_per_pair)
next
  case (Cancel db_now rid)
  with assms show ?thesis by (simp add: cancel_one_registered_per_pair)
next
  case (Attend db_now data)
  with assms show ?thesis by (simp add: one_registered_per_pair_iff registered_rows_def)
next
  case (Feedback db_now data)
  with assms show ?thesis by (simp add: one_registered_per_pair_iff registered_rows_def)
qed

lemma run_one_registered_per_pair:
  "covers_registered S \<Longrightarrow> one_registered_per_pair db \<Longrightarrow>
   one_registered_per_pair (run L S db rs)"
proof (induction rs arbitrary: db)
  case Nil
  then show ?case by simp
next
  case (Cons r rs)
  have "one_registered_per_pair (serve L S db r)"
    using Cons.prems by (rule serve_one_registered_per_pair)
  with Cons.prems(1) show ?case using Cons.IH by simp
qed


lemma deadline_passed_iff: "deadline_passed now ev \<longleftrightarrow> \<not> spec_deadline_open now ev"
  by (auto simp: deadline_passed_def spec_deadline_open_def split: option.splits)

lemma at_capacity_iff:
  "positive_capacity ev \<Longrightarrow> at_capacity ev n \<longleftrightarrow> \<not> spec_has_room ev n"
  by (auto simp: at_capacity_def spec_has_room_def positive_capacity_def split: option.splits)

lemma unique_violation_partial:
  assumes "uq_covers S = (\<lambda>r. reg_status r = ''registered'')"
  shows "unique_violation S (registrations db) (new_registration db db_now e s) \<longleftrightarrow>
         registered_rows db e s \<noteq> []"
  using assms
  by (auto simp: unique_violation_def registered_rows_def new_registration_def list_ex_iff
        filter_empty_conv)

lemma duplicate_iff:
  "fst (register_for_event L S now db_now db data) = Inl DuplicateRegistration \<longleftrightarrow>
     (\<exists>m e s ev. validate_registration_data L data = Valid m \<and>
        bind_id S (dict_get data ''event_id'') = Id e \<and>
        bind_id S (dict_get data ''student_id'') = Id s \<and>
        find (\<lambda>x. event_id x = e) (events db) = Some ev \<and>
        status ev = ''active'' \<and> \<not> deadline_passed now ev \<and>
        \<not> at_capacity ev (current_registrations db e) \<and>
        unique_violation S (registrations db) (new_registration db db_now e s))"
  (is "?lhs \<longleftrightarrow> ?rhs")
proof
  assume dup: ?lhs
  obtain m where v: "validate_registration_data L data = Valid m"
    using dup by (cases "validate_registration_data L data") (simp_all add: register_for_event_def)
  obtain e where e: "bind_id S (dict_get data ''event_id'') = Id e"
    using dup v by (cases "bind_id S (dict_get data ''event_id'')") (simp_all add: register_for_event_def)
  note chk = register_for_event_checked [OF v e, of now db_now db]
  obtain ev where ev: "find (\<lambda>x. event_id x = e) (events db) = Some ev"
    using dup chk by (cases "find (\<lambda>x. event_id x = e) (events db)") simp_all
  have act: "status ev = ''active''" "\<not> deadline_passed now ev"
    "\<not> at_capacity ev (current_registrations db e)"
    using dup chk ev by (auto split: if_splits)
  have ins: "insert_registration S db_now (tick (tick db)) (dict_get data ''event_id'')
       (dict_get data ''student_id'') = Inl UniqueViolation"
    using dup chk ev act by (auto split: sum.splits exn.splits prod.splits)
  obtain s where s: "bind_id S (dict_get data ''student_id'') = Id s"
    using ins e
    by (cases "bind_id S (dict_get data ''student_id'')") (simp_all add: insert_registration_def)
  have "unique_violation S (registrations db) (new_registration db db_now e s)"
    using ins insert_registration_bound [OF e s, of db_now "tick (tick db)"]
    by (auto split: if_splits)
  with v e s ev act show ?rhs by blast
next
  assume ?rhs
  then obtain m e s ev where v: "validate_registration_data L data = Valid m"
    and e: "bind_id S (dict_get data ''event_id'') = Id e"
    and s: "bind_id S (dict_get data ''student_id'') = Id s"
    and rest: "find (\<lambda>x. event_id x = e) (events db) = Some ev"
      "status ev = ''active''" "\<not> deadline_passed now ev"
      "\<not> at_capacity ev (current_registrations db e)"
      "unique_violation S (registrations db) (new_registration db db_now e s)"
    by blast
  show ?lhs
    using rest
    by (simp add: register_for_event_checked [OF v e] insert_registration_bound [OF e s])
qed

lemma find_cancel_after:
  "find (cancel_matches k) (map (\<lambda>r. if cancel_matches k r then cancelled db_now r else r) xs) = None"
  by (induction xs) (auto simp: cancel_matches_def)

lemma list_all_no_match:
  "list_all (\<lambda>r. registration_id r = k \<longrightarrow> reg_status r \<noteq> ''registered'') xs \<Longrightarrow>
   \<not> list_ex (cancel_matches k) xs"
  by (auto simp: list_all_iff list_ex_iff cancel_matches_def)

lemma mark_attendance_bound:
  assumes "map_of data ''registration_id'' = Some rid" and "bind_id S rid = Id k"
  shows "mark_attendance S db_now db data =
     (case active_registration db k of
        None \<Rightarrow> (Inl RegistrationNotActive, tick db)
      | Some (r, event_title, name) \<Rightarrow>
         (case existing_attendance db k of
            Some a \<Rightarrow> (Inl AlreadyCheckedIn, tick (tick db))
          | None \<Rightarrow>
             (Inr (new_attendance db db_now k (requested_method data), event_title, name),
              tick (tick (tick db))\<lparr>attendances :=
                     attendances db @ [new_attendance db db_now k (requested_method data)],
                   next_id := Suc (next_id db)\<rparr>)))"
proof -
  have ins: "insert_attendance db_now (tick (tick (tick db))) k how =
      Inr (new_attendance db db_now k how,
           tick (tick (tick db))\<lparr>attendances := attendances db @ [new_attendance db db_now k how],
                                  next_id := Suc (next_id db)\<rparr>)"
    if "active_registration db k = Some x" and "existing_attendance db k = None" for x how
  proof -
    from that(1) have "list_ex (\<lambda>r. registration_id r = k) (registrations db)"
      by (auto simp: active_registration_def list_ex_iff split: option.splits dest!: find_Some_list_ex)
    moreover from that(2) have "\<not> list_ex (\<lambda>a. att_registration_id a = k) (attendances db)"
      by (simp add: existing_attendance_def find_None_list_ex)
    ultimately show ?thesis
      by (simp add: insert_attendance_def new_attendance_def)
  qed
  show ?thesis
    using assms ins
    by (auto simp: mark_attendance_def Let_def split: option.splits)
qed

lemma active_registration_None:
  "\<not> list_ex (\<lambda>r. registration_id r = k \<and> reg_status r = ''registered'') (registrations db) \<Longrightarrow>
   active_registration db k = None"
  by (simp add: active_registration_def find_None_list_ex [THEN iffD2])

lemma active_registration_Some:
  assumes "find (\<lambda>r. registration_id r = k \<and> reg_status r = ''registered'') (registrations db) = Some r"
    and "find (\<lambda>x. event_id x = reg_event_id r) (events db) = Some ev"
    and "find (\<lambda>x. student_id x = reg_student_id r) (students db) = Some st"
  shows "active_registration db k = Some (r, title ev, student_name st)"
  using assms by (simp add: active_registration_def)

lemma attendance_rows_empty:
  "existing_attendance db k = None \<Longrightarrow> attendance_rows db k = []"
  by (simp add: existing_attendance_def attendance_rows_def find_None_list_ex list_ex_iff
        filter_empty_conv)

lemma length_filter_map_eq:
  assumes "\<And>x. P (f x) = P x"
  shows "length (filter P (map f xs)) = length (filter P xs)"
  using assms by (induction xs) auto

lemma with_feedback_keys [simp]:
  "attendance_id (with_feedback t r c a) = attendance_id a"
  "att_registration_id (with_feedback t r c a) = att_registration_id a"
  by (simp_all add: with_feedback_def)

lemma serve_one_attendance:
  assumes inv: "one_attendance_per_registration db"
  shows "one_attendance_per_registration (serve L S db r)"
proof (cases r)
  case (Register now db_now data)
  with inv show ?thesis
    by (simp add: one_attendance_per_registration_iff attendance_rows_def)
next
  case (Cancel db_now rid)
  with inv show ?thesis
    by (simp add: one_attendance_per_registration_iff attendance_rows_def)
next
  case (Attend db_now data)
  from mark_attendance_attendances [of S db_now db data]
  show ?thesis
  proof
    assume "attendances (snd (mark_attendance S db_now db data)) = attendances db"
    with inv Attend show ?thesis
      by (simp add: one_attendance_per_registration_iff attendance_rows_def)
  next
    assume "\<exists>k how. existing_attendance db k = None \<and>
      attendances (snd (mark_attendance S db_now db data)) =
        attendances db @ [new_attendance db db_now k how]"
    then obtain k how where none: "existing_attendance db k = None"
      and att: "attendances (snd (mark_attendance S db_now db data)) =
        attendances db @ [new_attendance db db_now k how]"
      by blast
    have rows: "attendance_rows (snd (mark_attendance S db_now db data)) k' =
        attendance_rows db k' @ (if k' = k then [new_attendance db db_now k how] else [])" for k'
      by (auto simp: attendance_rows_def att new_attendance_def)
    have "length (attendance_rows (snd (mark_attendance S db_now db data)) k') \<le> 1" for k'
      using inv attendance_rows_empty [OF none]
      by (auto simp: rows one_attendance_per_registration_iff)
    with Attend show ?thesis
      by (simp add: one_attendance_per_registration_iff)
  qed
next
  case (Feedback db_now data)
  from submit_feedback_attendances [of L S db_now db data]
  show ?thesis
  proof
    assume "attendances (snd (submit_feedback L S db_now db data)) = attendances db"
    with inv Feedback show ?thesis
      by (simp add: one_attendance_per_registration_iff attendance_rows_def)
  next
    assume "\<exists>k rating comment.
      attendances (snd (submit_feedback L S db_now db data)) =
        map (\<lambda>a. if attendance_id a = k then with_feedback db_now rating comment a else a)
          (attendances db)"
    then obtain k rating comment where att:
      "attendances (snd (submit_feedback L S db_now db data)) =
        map (\<lambda>a. if attendance_id a = k then with_feedback db_now rating comment a else a)
          (attendances db)"
      by blast
    have "length (attendance_rows (snd (submit_feedback L S db_now db data)) k') =
          length (attendance_rows db k')" for k'
      unfolding attendance_rows_def att
      by (rule length_filter_map_eq) simp
    with inv Feedback show ?thesis
      by (simp add: one_attendance_per_registration_iff)
  qed
qed

lemma run_one_attendance:
  "one_attendance_per_registration db \<Longrightarrow> one_attendance_per_registration (run L S db rs)"
proof (induction rs arbitrary: db)
  case Nil
  then show ?case by simp
next
  case (Cons r rs)
  have "one_attendance_per_registration (serve L S db r)"
    using Cons.prems by (rule serve_one_attendance)
  then show ?case using Cons.IH by simp
qed

lemma starts_with_iff: "starts_with w t \<longleftrightarrow> (\<exists>q. t = w @ q)"
  by (induction w t rule: starts_with.induct) auto

lemma contains_iff: "contains w t \<longleftrightarrow> (\<exists>p q. t = p @ w @ q)"
proof (induction t)
  case Nil
  then show ?case by auto
next
  case (Cons c cs)
  show ?case
  proof
    assume "contains w (c # cs)"
    then consider "starts_with w (c # cs)" | "contains w cs" by auto
    then show "\<exists>p q. c # cs = p @ w @ q"
    proof cases
      case 1
      then obtain q where "c # cs = w @ q" by (auto simp: starts_with_iff)
      then have "c # cs = [] @ w @ q" by simp
      then show ?thesis by blast
    next
      case 2
      with Cons.IH obtain p q where "cs = p @ w @ q" by blast
      then have "c # cs = (c # p) @ w @ q" by simp
      then show ?thesis by blast
    qed
  next
    assume "\<exists>p q. c # cs = p @ w @ q"
    then obtain p q where pq: "c # cs = p @ w @ q" by blast
    show "contains w (c # cs)"
    proof (cases p)
      case Nil
      with pq have "starts_with w (c # cs)" by (auto simp: starts_with_iff)
      then show ?thesis by simp
    next
      case (Cons a p')
      with pq have "cs = p' @ w @ q" by simp
      with Cons.IH have "contains w cs" by blast
      then show ?thesis by simp
    qed
  qed
qed

lemma submit_feedback_invalid:
  "validate_feedback_data L data = Invalid msg \<Longrightarrow>
   submit_feedback L S db_now db data = (Inl (ValidationError msg), db)"
  by (simp add: submit_feedback_def)

lemma dict_get_Some: "map_of data k = Some v \<Longrightarrow> dict_get data k = v"
  by (simp add: dict_get_def)

lemma validate_feedback_rated:
  assumes "map_of data ''attendance_id'' = Some aid" and "aid \<noteq> JNull" and "uuid_ok L aid"
    and "map_of data ''rating'' = Some v" and "py_int L v = Some r"
  shows "validate_feedback_data L data =
     (if r < 1 \<or> 5 < r then Invalid ''Rating must be between 1 and 5''
      else check_comment (dict_get data ''comment''))"
proof -
  have "data \<noteq> []" using assms(1) by auto
  moreover have "v \<noteq> JNull" using assms(5) by auto
  ultimately show ?thesis
    using assms by (simp add: validate_feedback_data_def absent_or_none_def dict_get_Some)
qed

lemma validate_feedback_bad_comment:
  assumes "map_of data ''rating'' = Some v" and "py_int L v = Some r" and "1 \<le> r" and "r \<le> 5"
    and "map_of data ''comment'' = Some (JStr c)"
    and "list_ex (\<lambda>w. contains w (lower c)) inappropriate_words"
  shows "\<exists>msg. validate_feedback_data L data = Invalid msg"
proof -
  have ne: "c \<noteq> []"
    using assms(6) by (auto simp: inappropriate_words_def lower_def)
  have "\<exists>msg. check_comment (JStr c) = Invalid msg"
    using assms(6) ne by (simp add: check_comment_def)
  then show ?thesis
    using assms(1-5)
    by (auto simp: validate_feedback_data_def dict_get_Some split: option.splits)
qed




lemma validate_event_data_scheduled:
  assumes "data \<noteq> []"
    and "find (absent_or_falsy data) (required_fields is_update) = None"
    and "dict_get data ''event_type'' \<in> set (map JStr valid_event_types)"
    and "dict_get data ''title'' = JStr t" and "length t \<le> 200"
    and "check_schedule L now data = Inr start_datetime"
  shows "validate_event_data L now is_update data =
     (case check_deadline L start_datetime data of
        Some v \<Rightarrow> v
      | None \<Rightarrow> check_optional L data)"
  using assms by (simp add: validate_event_data_def)

lemma check_schedule_start:
  assumes "check_schedule L now data = Inr start_datetime"
  shows "\<exists>s. dict_get data ''start_datetime'' = JStr s \<and>
             fromisoformat L (replace_Z s) = Some start_datetime"
proof (cases "dict_get data ''start_datetime''")
  case (JStr s)
  with assms show ?thesis
    by (auto simp: check_schedule_def split: option.splits sum.splits if_splits)
next
  case JNull
  with assms show ?thesis by (simp add: check_schedule_def)
next
  case (JBool b)
  with assms show ?thesis by (simp add: check_schedule_def)
next
  case (JInt n)
  with assms show ?thesis by (simp add: check_schedule_def)
qed

section \<open>The claims\<close>

lemma demo_valid:
  "validate_registration_data lib0 req_a = Valid ''Valid registration data''"
  "validate_registration_data lib0 req_b = Valid ''Valid registration data''"
  "validate_registration_data lib0 req_c = Valid ''Valid registration data''"
  by (simp_all add: validate_registration_data_def req_a_def req_b_def req_c_def
        register_request_def lib0_def demo_ids_def absent_or_falsy_def dict_get_def)

lemma demo_bind_event:
  "bind_id schema0 (dict_get req_a ''event_id'') = Id 7"
  "bind_id schema0 (dict_get req_b ''event_id'') = Id 7"
  "bind_id schema0 (dict_get req_c ''event_id'') = Id 7"
  by (simp_all add: req_a_def req_b_def req_c_def register_request_def schema0_def
        demo_ids_def dict_get_def)

lemma demo_bind_student:
  "bind_id schema0 (dict_get req_a ''student_id'') = Id 2"
  "bind_id schema0 (dict_get req_b ''student_id'') = Id 3"
  "bind_id schema0 (dict_get req_c ''student_id'') = Id 4"
  by (simp_all add: req_a_def req_b_def req_c_def register_request_def schema0_def
        demo_ids_def dict_get_def)

lemma demo_event [simp]:
  "event_id ev0 = 7"
  "status ev0 = ''active''" "max_capacity ev0 = Some 2" "registration_deadline ev0 = Some 100"
  "positive_capacity ev0"
  by (simp_all add: ev0_def positive_capacity_def)

lemma demo_stores [simp]:
  "events db0 = [ev0]" "events db1 = [ev0]" "events db2 = [ev0]" "events db3 = [ev0]"
  "registrations db0 = []" "registrations db1 = [reg_a]" "registrations db2 = [reg_a, reg_b]"
  "registrations db3 = [cancelled 70 reg_a, reg_b]"
  "next_id db0 = 10" "next_id db1 = 11" "next_id db2 = 12" "next_id db3 = 12"
  by (simp_all add: db0_def db1_def db2_def db3_def)

lemma demo_students [simp]:
  "list_ex (\<lambda>x. student_id x = 2) (students db0)"
  "list_ex (\<lambda>x. student_id x = 3) (students db1)"
  "list_ex (\<lambda>x. student_id x = 4) (students db2)"
  "list_ex (\<lambda>x. student_id x = 4) (students db3)"
  "list_ex (\<lambda>x. student_id x = 2) (students db3)"
  by (simp_all add: db0_def db1_def db2_def db3_def)

lemma demo_counts [simp]:
  "current_registrations db0 7 = 0" "current_registrations db1 7 = 1"
  "current_registrations db2 7 = 2" "current_registrations db3 7 = 1"
  by (simp_all add: current_registrations_def reg_a_def reg_b_def cancelled_def)

lemma demo_rows [simp]:
  "new_registration db0 51 7 2 = reg_a"
  "new_registration db1 61 7 3 = reg_b"
  "new_registration db3 81 7 4 = reg_c"
  "new_registration db3 81 7 2 = reg_a2"
  "tick (tick db3)\<lparr>registrations := [cancelled 70 reg_a, reg_b, reg_c], next_id := 13\<rparr> = db4"
  "tick (tick db0)\<lparr>registrations := [reg_a], next_id := 11\<rparr> = db1"
  "tick (tick db1)\<lparr>registrations := [reg_a, reg_b], next_id := 12\<rparr> = db2"
  by (simp_all add: new_registration_def reg_a_def reg_b_def reg_c_def reg_a2_def tick_def
        db0_def db1_def db2_def db3_def db4_def)

lemma demo_schema [simp]:
  "covers_registered schema0"
  "uq_covers schema0 = (\<lambda>r. reg_status r = ''registered'')"
  by (simp_all add: covers_registered_def schema0_def)

lemma demo_registered [simp]:
  "registered_rows db0 7 2 = []"
  "registered_rows db1 7 2 = [reg_a]"
  "registered_rows db1 7 3 = []"
  "registered_rows db3 7 2 = []"
  "registered_rows db3 7 4 = []"
  by (simp_all add: registered_rows_def reg_a_def reg_b_def cancelled_def)


lemma demo_steps:
  "register_for_event lib0 schema0 50 51 db0 req_a = (Inr reg_a, db1)"
  "register_for_event lib0 schema0 60 61 db1 req_b = (Inr reg_b, db2)"
  "register_for_event lib0 schema0 65 66 db2 req_c = (Inl CapacityExceeded, tick db2)"
  "cancel_registration schema0 70 (tick db2) rid_a = (Inr (cancelled 70 reg_a), db3)"
  "register_for_event lib0 schema0 80 81 db3 req_c = (Inr reg_c, db4)"
  "register_for_event lib0 schema0 80 81 db3 req_a =
     (Inr reg_a2, tick (tick db3)\<lparr>registrations := [cancelled 70 reg_a, reg_b, reg_a2],
                                    next_id := 13\<rparr>)"
proof -
  have unq: "\<not> unique_violation schema0 [] r"
    "\<not> unique_violation schema0 [reg_a] (new_registration db1 61 7 3)"
    "\<not> unique_violation schema0 [cancelled 70 reg_a, reg_b] (new_registration db3 81 7 4)"
    "\<not> unique_violation schema0 [cancelled 70 reg_a, reg_b] (new_registration db3 81 7 2)" for r
    by (simp_all add: unique_violation_def schema0_def reg_a_def reg_b_def new_registration_def
          cancelled_def del: demo_rows)
  show "register_for_event lib0 schema0 50 51 db0 req_a = (Inr reg_a, db1)"
    by (simp add: register_for_event_checked [OF demo_valid(1) demo_bind_event(1)]
          insert_registration_bound [OF demo_bind_event(1) demo_bind_student(1)]
          deadline_passed_def at_capacity_def unq)
  show "register_for_event lib0 schema0 60 61 db1 req_b = (Inr reg_b, db2)"
    using unq(2)
    by (simp add: register_for_event_checked [OF demo_valid(2) demo_bind_event(2)]
          insert_registration_bound [OF demo_bind_event(2) demo_bind_student(2)]
          deadline_passed_def at_capacity_def)
  show "register_for_event lib0 schema0 65 66 db2 req_c = (Inl CapacityExceeded, tick db2)"
    by (simp add: register_for_event_checked [OF demo_valid(3) demo_bind_event(3)]
          deadline_passed_def at_capacity_def)
  have "bind_id schema0 (JStr rid_a) = Id 10"
    by (simp add: rid_a_def schema0_def demo_ids_def)
  then show "cancel_registration schema0 70 (tick db2) rid_a = (Inr (cancelled 70 reg_a), db3)"
    by (simp add: cancel_registration_bound cancel_matches_def reg_a_def reg_b_def
          tick_def db0_def db2_def db3_def)
  show "register_for_event lib0 schema0 80 81 db3 req_c = (Inr reg_c, db4)"
    using unq(3)
    by (simp add: register_for_event_checked [OF demo_valid(3) demo_bind_event(3)]
          insert_registration_bound [OF demo_bind_event(3) demo_bind_student(3)]
          deadline_passed_def at_capacity_def)
  show "register_for_event lib0 schema0 80 81 db3 req_a =
     (Inr reg_a2, tick (tick db3)\<lparr>registrations := [cancelled 70 reg_a, reg_b, reg_a2],
                                    next_id := 13\<rparr>)"
    using unq(4)
    by (simp add: register_for_event_checked [OF demo_valid(1) demo_bind_event(1)]
          insert_registration_bound [OF demo_bind_event(1) demo_bind_student(1)]
          deadline_passed_def at_capacity_def)
qed

lemma demo_run: "run lib0 schema0 db0 scenario = db4"
  by (simp add: scenario_def demo_steps)

lemma demo_invariants:
  "distinct (map event_id (events db0))" "within_capacity db0" "one_registered_per_pair db0"
  by (simp_all add: within_capacity_def one_registered_per_pair_def)

lemma demo_attendance [simp]:
  "students db2 = students db0" "students db3 = students db0" "students db5 = students db0"
  "attendances db2 = []" "attendances db3 = []" "attendances db5 = [att_a]"
  "events db5 = [ev0]" "registrations db5 = [reg_a, reg_b]" "next_id db5 = 13"
  "title ev0 = ''Hack night''"
  by (simp_all add: db0_def db2_def db3_def db5_def ev0_def)

lemma demo_feedback:
  "map_of (feedback_request aid r c) ''attendance_id'' = Some (JStr aid)"
  "map_of (feedback_request aid r c) ''rating'' = Some (JInt r)"
  "map_of (feedback_request aid r c) ''comment'' = Some (JStr c)"
  "dict_get (feedback_request aid r c) ''comment'' = JStr c"
  "submitted_comment (feedback_request aid r c) = JStr c"
  by (simp_all add: feedback_request_def dict_get_def submitted_comment_def)

lemma demo_comments:
  "check_comment (JStr ''Great'') = Valid ''Valid feedback data''"
  "check_comment (JStr ''Superb'') = Valid ''Valid feedback data''"
  "lower ''Buy SPAM now'' = ''buy spam now''"
  by code_simp+

lemma demo_attendance_ids:
  "uuid_ok lib0 (JStr aid_a)" "bind_id schema0 (JStr aid_a) = Id 12"
  "uuid_ok lib0 (JStr ''00000000-0000-0000-0000-0000000000ff'')"
  "bind_id schema0 (JStr ''00000000-0000-0000-0000-0000000000ff'') = Id 255"
  by (simp_all add: lib0_def schema0_def aid_a_def demo_ids_def)

lemma demo_event_request:
  "event_request d \<noteq> []"
  "find (absent_or_falsy (event_request d)) (required_fields False) = None"
  "dict_get (event_request d) ''event_type'' \<in> set (map JStr valid_event_types)"
  "dict_get (event_request d) ''title'' = JStr ''Hack night''"
  "length ''Hack night'' \<le> 200"
  "check_schedule lib0 0 (event_request d) = Inr \<lparr>wall = 10 * hour, utcoffset = None\<rparr>"
  "dict_get (event_request d) ''registration_deadline'' = JStr d"
  "check_optional lib0 (event_request d) = Valid ''Valid event data''"
  by (simp_all add: event_request_def required_fields_def absent_or_falsy_def dict_get_def
        valid_event_types_def check_schedule_def lib0_def demo_times_def replace_Z_def
        comparable_def instant_def hour_def check_optional_def check_capacity_def
        check_length_def)

lemma demo_deadlines:
  "fromisoformat lib0 (replace_Z ''2030-05-01T10:00:00'') = Some \<lparr>wall = 10 * hour, utcoffset = None\<rparr>"
  "fromisoformat lib0 (replace_Z ''2030-05-01T12:00:00'') = Some \<lparr>wall = 12 * hour, utcoffset = None\<rparr>"
  "fromisoformat lib0 (replace_Z ''2030-05-01T09:00:00'') = Some \<lparr>wall = 9 * hour, utcoffset = None\<rparr>"
  by (simp_all add: lib0_def demo_times_def replace_Z_def)

text \<open>
  C1. For a payload that passes validation and whose identifiers the store reads as the
  event \<open>e\<close> and the student \<open>s\<close>, \<^verbatim>\<open>register_for_event\<close> decides in this order, on one
  read of the event and its count: no such event gives EventNotFound; a status other than
  active gives EventInactive; a deadline that is set and before the current time gives
  DeadlinePassed; a (positive) capacity that the count has reached gives
  CapacityExceeded; an insert that violates the uniqueness constraint on the pair gives
  DuplicateRegistration, and a registration of status registered for the pair is such a
  violation. Otherwise, for a student that exists, the new registration (status
  registered, the store's timestamp) is appended and returned. Whatever the payload, a
  request that fails leaves every row unchanged, and the five errors have different
  status-and-message pairs.
\<close>

theorem admission_checks_in_order:
  assumes "validate_registration_data L data = Valid m"
    and "bind_id S (dict_get data ''event_id'') = Id e"
    and "bind_id S (dict_get data ''student_id'') = Id s"
  shows
   "(find (\<lambda>x. event_id x = e) (events db) = None \<longrightarrow>
       register_for_event L S now db_now db data = (Inl EventNotFound, tick db)) \<and>
    (\<forall>ev. find (\<lambda>x. event_id x = e) (events db) = Some ev \<longrightarrow>
       (status ev \<noteq> ''active'' \<longrightarrow>
          register_for_event L S now db_now db data = (Inl EventInactive, tick db)) \<and>
       (status ev = ''active'' \<and> \<not> spec_deadline_open now ev \<longrightarrow>
          register_for_event L S now db_now db data = (Inl DeadlinePassed, tick db)) \<and>
       (status ev = ''active'' \<and> spec_deadline_open now ev \<and> positive_capacity ev \<and>
        \<not> spec_has_room ev (current_registrations db e) \<longrightarrow>
          register_for_event L S now db_now db data = (Inl CapacityExceeded, tick db)) \<and>
       (status ev = ''active'' \<and> spec_deadline_open now ev \<and>
        spec_has_room ev (current_registrations db e) \<and>
        unique_violation S (registrations db) (new_registration db db_now e s) \<longrightarrow>
          register_for_event L S now db_now db data =
            (Inl DuplicateRegistration, tick (tick db))) \<and>
       (status ev = ''active'' \<and> spec_deadline_open now ev \<and>
        spec_has_room ev (current_registrations db e) \<and>
        \<not> unique_violation S (registrations db) (new_registration db db_now e s) \<and>
        list_ex (\<lambda>x. student_id x = s) (students db) \<longrightarrow>
          register_for_event L S now db_now db data =
            (Inr (new_registration db db_now e s),
             tick (tick db)\<lparr>registrations := registrations db @ [new_registration db db_now e s],
                             next_id := Suc (next_id db)\<rparr>))) \<and>
    (covers_registered S \<and> registered_rows db e s \<noteq> [] \<longrightarrow>
       unique_violation S (registrations db) (new_registration db db_now e s)) \<and>
    (uq_covers S = (\<lambda>r. reg_status r = ''registered'') \<and> registered_rows db e s = [] \<longrightarrow>
       \<not> unique_violation S (registrations db) (new_registration db db_now e s)) \<and>
    reg_status (new_registration db db_now e s) = ''registered'' \<and>
    registered_at (new_registration db db_now e s) = db_now \<and>
    (\<forall>err. fst (register_for_event L S now db_now db data) = Inl err \<longrightarrow>
       same_rows (snd (register_for_event L S now db_now db data)) db) \<and>
    distinct (map (\<lambda>err. (status_code err, error_message err))
       [EventNotFound, EventInactive, DeadlinePassed, CapacityExceeded, DuplicateRegistration])"
proof -
  note chk = register_for_event_checked [OF assms(1,2), of now db_now db]
  note ins = insert_registration_bound [OF assms(2,3), of db_now "tick (tick db)"]
  have 1: "find (\<lambda>x. event_id x = e) (events db) = None \<longrightarrow>
       register_for_event L S now db_now db data = (Inl EventNotFound, tick db)"
    by (simp add: chk)
  have 2: "\<forall>ev. find (\<lambda>x. event_id x = e) (events db) = Some ev \<longrightarrow>
       (status ev \<noteq> ''active'' \<longrightarrow>
          register_for_event L S now db_now db data = (Inl EventInactive, tick db)) \<and>
       (status ev = ''active'' \<and> \<not> spec_deadline_open now ev \<longrightarrow>
          register_for_event L S now db_now db data = (Inl DeadlinePassed, tick db)) \<and>
       (status ev = ''active'' \<and> spec_deadline_open now ev \<and> positive_capacity ev \<and>
        \<not> spec_has_room ev (current_registrations db e) \<longrightarrow>
          register_for_event L S now db_now db data = (Inl CapacityExceeded, tick db)) \<and>
       (status ev = ''active'' \<and> spec_deadline_open now ev \<and>
        spec_has_room ev (current_registrations db e) \<and>
        unique_violation S (registrations db) (new_registration db db_now e s) \<longrightarrow>
          register_for_event L S now db_now db data =
            (Inl DuplicateRegistration, tick (tick db))) \<and>
       (status ev = ''active'' \<and> spec_deadline_open now ev \<and>
        spec_has_room ev (current_registrations db e) \<and>
        \<not> unique_violation S (registrations db) (new_registration db db_now e s) \<and>
        list_ex (\<lambda>x. student_id x = s) (students db) \<longrightarrow>
          register_for_event L S now db_now db data =
            (Inr (new_registration db db_now e s),
             tick (tick db)\<lparr>registrations := registrations db @ [new_registration db db_now e s],
                             next_id := Suc (next_id db)\<rparr>))"
    by (auto simp: chk ins find_Some_list_ex deadline_passed_iff at_capacity_iff
          at_capacity_def spec_has_room_def positive_capacity_def split: option.splits)
  have 3: "(covers_registered S \<and> registered_rows db e s \<noteq> [] \<longrightarrow>
       unique_violation S (registrations db) (new_registration db db_now e s)) \<and>
    (uq_covers S = (\<lambda>r. reg_status r = ''registered'') \<and> registered_rows db e s = [] \<longrightarrow>
       \<not> unique_violation S (registrations db) (new_registration db db_now e s))"
    using registered_rows_violation unique_violation_partial by blast
  have 4: "reg_status (new_registration db db_now e s) = ''registered'' \<and>
    registered_at (new_registration db db_now e s) = db_now"
    by (simp add: new_registration_def)
  have 5: "\<forall>err. fst (register_for_event L S now db_now db data) = Inl err \<longrightarrow>
       same_rows (snd (register_for_event L S now db_now db data)) db"
    using register_for_event_failure_rows by blast
  have 6: "distinct (map (\<lambda>err. (status_code err, error_message err))
       [EventNotFound, EventInactive, DeadlinePassed, CapacityExceeded, DuplicateRegistration])"
    by simp
  from 1 2 3 4 5 6 show ?thesis by blast
qed

theorem admission_checks_in_order_witness:
  "register_for_event lib0 schema0 50 51 db0 req_a = (Inr reg_a, db1) \<and>
   register_for_event lib0 schema0 60 61 db1 req_a = (Inl DuplicateRegistration, tick (tick db1)) \<and>
   register_for_event lib0 schema0 65 66 db2 req_c = (Inl CapacityExceeded, tick db2) \<and>
   register_for_event lib0 schema0 101 102 db0 req_a = (Inl DeadlinePassed, tick db0)"
proof -
  note a = admission_checks_in_order [OF demo_valid(1) demo_bind_event(1) demo_bind_student(1),
      of db0 50 51]
  note d = admission_checks_in_order [OF demo_valid(1) demo_bind_event(1) demo_bind_student(1),
      of db1 60 61]
  note c = admission_checks_in_order [OF demo_valid(3) demo_bind_event(3) demo_bind_student(3),
      of db2 65 66]
  note l = admission_checks_in_order [OF demo_valid(1) demo_bind_event(1) demo_bind_student(1),
      of db0 101 102]
  have 1: "register_for_event lib0 schema0 50 51 db0 req_a = (Inr reg_a, db1)"
    using a by (simp add: spec_deadline_open_def spec_has_room_def)
  have 2: "register_for_event lib0 schema0 60 61 db1 req_a = (Inl DuplicateRegistration, tick (tick db1))"
    using d by (simp add: spec_deadline_open_def spec_has_room_def)
  have 3: "register_for_event lib0 schema0 65 66 db2 req_c = (Inl CapacityExceeded, tick db2)"
    using c by (simp add: spec_deadline_open_def spec_has_room_def)
  have 4: "register_for_event lib0 schema0 101 102 db0 req_a = (Inl DeadlinePassed, tick db0)"
    using l by (simp add: spec_deadline_open_def)
  from 1 2 3 4 show ?thesis by simp
qed

text \<open>
  C2. For an event with a capacity \<open>C\<close> (a positive integer): a request when the count of
  registered registrations has reached \<open>C\<close> fails and changes no row, with
  CapacityExceeded when the event is active and its deadline open; a request that
  succeeds found the count below \<open>C\<close> and raises it by one; and in a store whose events
  have distinct identifiers, no sequence of register, cancel, attendance and feedback
  requests takes the count of any event above its capacity.
\<close>

theorem capacity_never_exceeded:
  assumes "validate_registration_data L data = Valid m"
    and "bind_id S (dict_get data ''event_id'') = Id e"
    and "find (\<lambda>x. event_id x = e) (events db) = Some ev"
    and "max_capacity ev = Some C"
    and "0 < C"
  shows
   "(C \<le> int (current_registrations db e) \<longrightarrow>
       (\<exists>err. fst (register_for_event L S now db_now db data) = Inl err) \<and>
       same_rows (snd (register_for_event L S now db_now db data)) db) \<and>
    (C \<le> int (current_registrations db e) \<and> status ev = ''active'' \<and>
     spec_deadline_open now ev \<longrightarrow>
       register_for_event L S now db_now db data = (Inl CapacityExceeded, tick db)) \<and>
    (\<forall>row. fst (register_for_event L S now db_now db data) = Inr row \<longrightarrow>
       int (current_registrations db e) < C \<and>
       current_registrations (snd (register_for_event L S now db_now db data)) e =
         Suc (current_registrations db e)) \<and>
    (distinct (map event_id (events db)) \<and> within_capacity db \<longrightarrow>
       within_capacity (run L S db rs))"
proof -
  note chk = register_for_event_checked [OF assms(1,2), of now db_now db]
  have full: "C \<le> int (current_registrations db e) \<Longrightarrow> at_capacity ev (current_registrations db e)"
    using assms(4,5) by (simp add: at_capacity_def)
  have 2: "C \<le> int (current_registrations db e) \<and> status ev = ''active'' \<and>
     spec_deadline_open now ev \<longrightarrow>
       register_for_event L S now db_now db data = (Inl CapacityExceeded, tick db)"
    using assms(3) full by (simp add: chk deadline_passed_iff)
  have fails: "C \<le> int (current_registrations db e) \<longrightarrow>
       (\<exists>err. fst (register_for_event L S now db_now db data) = Inl err)"
    using assms(3) full by (simp add: chk)
  have 1: "C \<le> int (current_registrations db e) \<longrightarrow>
       (\<exists>err. fst (register_for_event L S now db_now db data) = Inl err) \<and>
       same_rows (snd (register_for_event L S now db_now db data)) db"
    using fails register_for_event_failure_rows by blast
  have 3: "\<forall>row. fst (register_for_event L S now db_now db data) = Inr row \<longrightarrow>
       int (current_registrations db e) < C \<and>
       current_registrations (snd (register_for_event L S now db_now db data)) e =
         Suc (current_registrations db e)"
  proof (intro allI impI)
    fix row
    assume ok: "fst (register_for_event L S now db_now db data) = Inr row"
    from register_for_event_success [OF ok] assms(2,3)
    have cap: "\<not> at_capacity ev (current_registrations db e)"
      and db': "\<exists>s. snd (register_for_event L S now db_now db data) =
             tick (tick db)\<lparr>registrations := registrations db @ [new_registration db db_now e s],
                             next_id := Suc (next_id db)\<rparr>"
      by auto
    from cap assms(4,5) have "int (current_registrations db e) < C"
      by (simp add: at_capacity_def)
    moreover from db' have "current_registrations (snd (register_for_event L S now db_now db data)) e =
         Suc (current_registrations db e)"
      by (auto simp: current_registrations_def new_registration_def)
    ultimately show "int (current_registrations db e) < C \<and>
       current_registrations (snd (register_for_event L S now db_now db data)) e =
         Suc (current_registrations db e)" by simp
  qed
  have 4: "distinct (map event_id (events db)) \<and> within_capacity db \<longrightarrow>
       within_capacity (run L S db rs)"
    using run_within_capacity by blast
  from 1 2 3 4 show ?thesis by blast
qed

theorem capacity_never_exceeded_witness:
  "register_for_event lib0 schema0 65 66 db2 req_c = (Inl CapacityExceeded, tick db2) \<and>
   int (current_registrations db3 7) < 2 \<and>
   current_registrations db4 7 = 2 \<and>
   within_capacity (run lib0 schema0 db0 scenario)"
proof -
  have ev: "find (\<lambda>x. event_id x = 7) (events db2) = Some ev0"
    "find (\<lambda>x. event_id x = 7) (events db3) = Some ev0"
    by simp_all
  have cap: "max_capacity ev0 = Some 2" "(0::int) < 2"
    by simp_all
  note full = capacity_never_exceeded [OF demo_valid(3) demo_bind_event(3) ev(1) cap,
      where now = 65 and db_now = 66 and rs = scenario]
  note room = capacity_never_exceeded [OF demo_valid(3) demo_bind_event(3) ev(2) cap,
      where now = 80 and db_now = 81 and rs = scenario]
  have 1: "register_for_event lib0 schema0 65 66 db2 req_c = (Inl CapacityExceeded, tick db2)"
    using full by (simp add: spec_deadline_open_def)
  have 2: "int (current_registrations db3 7) < 2 \<and> current_registrations db4 7 = 2"
    using room by (simp add: demo_steps)
  have 3: "within_capacity (run lib0 schema0 db0 scenario)"
    using capacity_never_exceeded [OF demo_valid(1) demo_bind_event(1) _ cap,
      where db = db0 and now = 50 and db_now = 51 and rs = scenario] demo_invariants
    by simp
  from 1 2 3 show ?thesis by simp
qed

text \<open>
  C3. When the uniqueness constraint holds the rows of status registered: no sequence of
  requests gives a pair two registrations of status registered; \<^verbatim>\<open>register_for_event\<close>
  answers DuplicateRegistration (409) exactly when the earlier checks pass and the insert
  violates the constraint; and a request that succeeds found no registration of status
  registered for the pair and appends a row with a fresh identifier, leaving the earlier
  rows, a cancelled one among them, as they were.
\<close>

theorem one_registration_per_pair:
  assumes "covers_registered S"
  shows
   "(one_registered_per_pair db \<longrightarrow> one_registered_per_pair (run L S db rs)) \<and>
    (fst (register_for_event L S now db_now db data) = Inl DuplicateRegistration \<longleftrightarrow>
       (\<exists>m e s ev. validate_registration_data L data = Valid m \<and>
          bind_id S (dict_get data ''event_id'') = Id e \<and>
          bind_id S (dict_get data ''student_id'') = Id s \<and>
          find (\<lambda>x. event_id x = e) (events db) = Some ev \<and>
          status ev = ''active'' \<and> \<not> deadline_passed now ev \<and>
          \<not> at_capacity ev (current_registrations db e) \<and>
          unique_violation S (registrations db) (new_registration db db_now e s))) \<and>
    status_code DuplicateRegistration = 409 \<and>
    (\<forall>row. fst (register_for_event L S now db_now db data) = Inr row \<longrightarrow>
       registered_rows db (reg_event_id row) (reg_student_id row) = [] \<and>
       registration_id row = next_id db \<and> reg_status row = ''registered'' \<and>
       registrations (snd (register_for_event L S now db_now db data)) =
         registrations db @ [row])"
proof -
  have 1: "one_registered_per_pair db \<longrightarrow> one_registered_per_pair (run L S db rs)"
    using assms run_one_registered_per_pair by blast
  have 3: "\<forall>row. fst (register_for_event L S now db_now db data) = Inr row \<longrightarrow>
       registered_rows db (reg_event_id row) (reg_student_id row) = [] \<and>
       registration_id row = next_id db \<and> reg_status row = ''registered'' \<and>
       registrations (snd (register_for_event L S now db_now db data)) =
         registrations db @ [row]"
  proof (intro allI impI)
    fix row
    assume ok: "fst (register_for_event L S now db_now db data) = Inr row"
    from register_for_event_success [OF ok]
    obtain e s where uq: "\<not> unique_violation S (registrations db) (new_registration db db_now e s)"
      and row: "row = new_registration db db_now e s"
      and db': "snd (register_for_event L S now db_now db data) =
             tick (tick db)\<lparr>registrations := registrations db @ [row],
                             next_id := Suc (next_id db)\<rparr>"
      by blast
    have "registered_rows db e s = []"
      using assms uq by (rule registered_rows_empty)
    then show "registered_rows db (reg_event_id row) (reg_student_id row) = [] \<and>
       registration_id row = next_id db \<and> reg_status row = ''registered'' \<and>
       registrations (snd (register_for_event L S now db_now db data)) =
         registrations db @ [row]"
      by (simp add: db' row new_registration_def)
  qed
  from 1 3 duplicate_iff [of L S now db_now db data] show ?thesis by simp
qed

theorem one_registration_per_pair_witness:
  "one_registered_per_pair (run lib0 schema0 db0 scenario) \<and>
   fst (register_for_event lib0 schema0 60 61 db1 req_a) = Inl DuplicateRegistration \<and>
   fst (register_for_event lib0 schema0 80 81 db3 req_a) = Inr reg_a2 \<and>
   registrations (snd (register_for_event lib0 schema0 80 81 db3 req_a)) =
     [cancelled 70 reg_a, reg_b, reg_a2]"
proof -
  have cov: "covers_registered schema0"
    by simp
  have 1: "one_registered_per_pair (run lib0 schema0 db0 scenario)"
    using one_registration_per_pair [OF cov, where db = db0 and L = lib0 and rs = scenario] demo_invariants by simp
  have "unique_violation schema0 (registrations db1) (new_registration db1 61 7 2)"
    by (simp add: unique_violation_def schema0_def reg_a_def new_registration_def)
  then have 2: "fst (register_for_event lib0 schema0 60 61 db1 req_a) = Inl DuplicateRegistration"
    using one_registration_per_pair [OF cov, where db = db1 and L = lib0 and now = 60 and db_now = 61
        and data = req_a]
      demo_valid(1) demo_bind_event(1) demo_bind_student(1)
    by (simp add: deadline_passed_def at_capacity_def)
  have 3: "fst (register_for_event lib0 schema0 80 81 db3 req_a) = Inr reg_a2 \<and>
     registrations (snd (register_for_event lib0 schema0 80 81 db3 req_a)) =
       [cancelled 70 reg_a, reg_b, reg_a2]"
    using one_registration_per_pair [OF cov, where db = db3 and L = lib0 and now = 80 and db_now = 81
        and data = req_a]
    by (simp add: demo_steps)
  from 1 2 3 show ?thesis by simp
qed

text \<open>
  C4. For an event that exists, is active and has a registration deadline \<open>d\<close>: a request
  at a time up to and including \<open>d\<close> does not fail with DeadlinePassed, and is admitted
  when the event has room, the insert violates no uniqueness constraint and the student
  exists; a request at any time after \<open>d\<close> fails with DeadlinePassed after the one read.
\<close>

theorem deadline_boundary:
  assumes "validate_registration_data L data = Valid m"
    and "bind_id S (dict_get data ''event_id'') = Id e"
    and "bind_id S (dict_get data ''student_id'') = Id s"
    and "find (\<lambda>x. event_id x = e) (events db) = Some ev"
    and "status ev = ''active''"
    and "registration_deadline ev = Some d"
  shows "(now \<le> d \<longrightarrow> fst (register_for_event L S now db_now db data) \<noteq> Inl DeadlinePassed) \<and>
         (now \<le> d \<and> \<not> at_capacity ev (current_registrations db e) \<and>
          \<not> unique_violation S (registrations db) (new_registration db db_now e s) \<and>
          list_ex (\<lambda>x. student_id x = s) (students db) \<longrightarrow>
            fst (register_for_event L S now db_now db data) = Inr (new_registration db db_now e s)) \<and>
         (d < now \<longrightarrow> register_for_event L S now db_now db data = (Inl DeadlinePassed, tick db))"
  using assms(4-6)
  by (auto simp: register_for_event_checked [OF assms(1,2)] deadline_passed_def
        insert_registration_bound [OF assms(2,3)] find_Some_list_ex
      split: sum.splits exn.splits prod.splits)

theorem deadline_boundary_witness:
  "fst (register_for_event lib0 schema0 100 100 db0 req_a) = Inr (new_registration db0 100 7 2) \<and>
   register_for_event lib0 schema0 101 101 db0 req_a = (Inl DeadlinePassed, tick db0)"
proof -
  have ev: "find (\<lambda>x. event_id x = 7) (events db0) = Some ev0"
    by simp
  note at = deadline_boundary [OF demo_valid(1) demo_bind_event(1) demo_bind_student(1) ev,
      of 100 100 100]
  note after = deadline_boundary [OF demo_valid(1) demo_bind_event(1) demo_bind_student(1) ev,
      of 100 101 101]
  have room: "\<not> at_capacity ev0 (current_registrations db0 7)"
    by (simp add: at_capacity_def)
  have uq: "\<not> unique_violation schema0 (registrations db0) (new_registration db0 100 7 2)"
    by (simp add: unique_violation_def)
  from at room uq after show ?thesis by simp
qed

text \<open>
  C5. For a body whose \<^verbatim>\<open>registration_id\<close> the store reads as \<open>k\<close>: \<^verbatim>\<open>mark_attendance\<close>
  answers 404 when no registration \<open>k\<close> of status registered exists; for a registration
  whose event and student exist it answers 409 when an attendance row for \<open>k\<close> exists,
  and otherwise, for one of the three check-in methods, appends one attendance row with
  the store's time and returns it, after which a second call gets the 409. No sequence of
  requests gives a registration two attendance rows.
\<close>

theorem mark_attendance_contract:
  assumes "map_of data ''registration_id'' = Some rid" and "bind_id S rid = Id k"
  shows
   "(\<not> list_ex (\<lambda>r. registration_id r = k \<and> reg_status r = ''registered'') (registrations db) \<longrightarrow>
       mark_attendance S db_now db data = (Inl RegistrationNotActive, tick db)) \<and>
    (\<forall>r ev st.
       find (\<lambda>r. registration_id r = k \<and> reg_status r = ''registered'') (registrations db) = Some r \<and>
       find (\<lambda>x. event_id x = reg_event_id r) (events db) = Some ev \<and>
       find (\<lambda>x. student_id x = reg_student_id r) (students db) = Some st \<longrightarrow>
         (list_ex (\<lambda>a. att_registration_id a = k) (attendances db) \<longrightarrow>
            mark_attendance S db_now db data = (Inl AlreadyCheckedIn, tick (tick db))) \<and>
         (\<not> list_ex (\<lambda>a. att_registration_id a = k) (attendances db) \<and>
          requested_method data \<in> set (map JStr valid_methods) \<longrightarrow>
            mark_attendance S db_now db data =
              (Inr (new_attendance db db_now k (requested_method data), title ev, student_name st),
               tick (tick (tick db))\<lparr>attendances :=
                      attendances db @ [new_attendance db db_now k (requested_method data)],
                    next_id := Suc (next_id db)\<rparr>) \<and>
            checked_in_at (new_attendance db db_now k (requested_method data)) = db_now \<and>
            mark_attendance S later (snd (mark_attendance S db_now db data)) data =
              (Inl AlreadyCheckedIn, tick (tick (snd (mark_attendance S db_now db data)))))) \<and>
    status_code RegistrationNotActive = 404 \<and> status_code AlreadyCheckedIn = 409 \<and>
    (one_attendance_per_registration db \<longrightarrow> one_attendance_per_registration (run L S db rs))"
proof -
  note m = mark_attendance_bound [OF assms]
  have 1: "\<not> list_ex (\<lambda>r. registration_id r = k \<and> reg_status r = ''registered'') (registrations db) \<longrightarrow>
       mark_attendance S db_now db data = (Inl RegistrationNotActive, tick db)"
    by (simp add: m active_registration_None)
  have 2: "\<forall>r ev st.
       find (\<lambda>r. registration_id r = k \<and> reg_status r = ''registered'') (registrations db) = Some r \<and>
       find (\<lambda>x. event_id x = reg_event_id r) (events db) = Some ev \<and>
       find (\<lambda>x. student_id x = reg_student_id r) (students db) = Some st \<longrightarrow>
         (list_ex (\<lambda>a. att_registration_id a = k) (attendances db) \<longrightarrow>
            mark_attendance S db_now db data = (Inl AlreadyCheckedIn, tick (tick db))) \<and>
         (\<not> list_ex (\<lambda>a. att_registration_id a = k) (attendances db) \<and>
          requested_method data \<in> set (map JStr valid_methods) \<longrightarrow>
            mark_attendance S db_now db data =
              (Inr (new_attendance db db_now k (requested_method data), title ev, student_name st),
               tick (tick (tick db))\<lparr>attendances :=
                      attendances db @ [new_attendance db db_now k (requested_method data)],
                    next_id := Suc (next_id db)\<rparr>) \<and>
            checked_in_at (new_attendance db db_now k (requested_method data)) = db_now \<and>
            mark_attendance S later (snd (mark_attendance S db_now db data)) data =
              (Inl AlreadyCheckedIn, tick (tick (snd (mark_attendance S db_now db data)))))"
  proof (intro allI impI, elim conjE)
    fix r ev st
    assume r: "find (\<lambda>r. registration_id r = k \<and> reg_status r = ''registered'') (registrations db) = Some r"
      and ev: "find (\<lambda>x. event_id x = reg_event_id r) (events db) = Some ev"
      and st: "find (\<lambda>x. student_id x = reg_student_id r) (students db) = Some st"
    note act = active_registration_Some [OF r ev st]
    have a: "list_ex (\<lambda>a. att_registration_id a = k) (attendances db) \<longrightarrow>
            mark_attendance S db_now db data = (Inl AlreadyCheckedIn, tick (tick db))"
      by (auto simp: m act existing_attendance_def find_None_list_ex split: option.splits)
    have b: "mark_attendance S db_now db data =
              (Inr (new_attendance db db_now k (requested_method data), title ev, student_name st),
               tick (tick (tick db))\<lparr>attendances :=
                      attendances db @ [new_attendance db db_now k (requested_method data)],
                    next_id := Suc (next_id db)\<rparr>) \<and>
            checked_in_at (new_attendance db db_now k (requested_method data)) = db_now \<and>
            mark_attendance S later (snd (mark_attendance S db_now db data)) data =
              (Inl AlreadyCheckedIn, tick (tick (snd (mark_attendance S db_now db data))))"
      if none: "\<not> list_ex (\<lambda>a. att_registration_id a = k) (attendances db)"
    proof -
      from none have ex: "existing_attendance db k = None"
        by (simp add: existing_attendance_def find_None_list_ex)
      have first: "mark_attendance S db_now db data =
              (Inr (new_attendance db db_now k (requested_method data), title ev, student_name st),
               tick (tick (tick db))\<lparr>attendances :=
                      attendances db @ [new_attendance db db_now k (requested_method data)],
                    next_id := Suc (next_id db)\<rparr>)"
        by (simp add: m act ex)
      define db' where "db' = snd (mark_attendance S db_now db data)"
      have act': "active_registration db' k = Some (r, title ev, student_name st)"
        by (simp add: db'_def first active_registration_def r ev st)
      have "list_ex (\<lambda>a. att_registration_id a = k) (attendances db')"
        by (simp add: db'_def first new_attendance_def)
      then obtain a where ex': "existing_attendance db' k = Some a"
        by (cases "existing_attendance db' k")
           (simp_all add: existing_attendance_def find_None_list_ex)
      have "mark_attendance S later db' data = (Inl AlreadyCheckedIn, tick (tick db'))"
        by (simp add: mark_attendance_bound [OF assms] act' ex')
      then have second: "mark_attendance S later (snd (mark_attendance S db_now db data)) data =
              (Inl AlreadyCheckedIn, tick (tick (snd (mark_attendance S db_now db data))))"
        by (simp add: db'_def)
      from first second show ?thesis by (simp add: new_attendance_def)
    qed
    from a b show "(list_ex (\<lambda>a. att_registration_id a = k) (attendances db) \<longrightarrow>
            mark_attendance S db_now db data = (Inl AlreadyCheckedIn, tick (tick db))) \<and>
         (\<not> list_ex (\<lambda>a. att_registration_id a = k) (attendances db) \<and>
          requested_method data \<in> set (map JStr valid_methods) \<longrightarrow>
            mark_attendance S db_now db data =
              (Inr (new_attendance db db_now k (requested_method data), title ev, student_name st),
               tick (tick (tick db))\<lparr>attendances :=
                      attendances db @ [new_attendance db db_now k (requested_method data)],
                    next_id := Suc (next_id db)\<rparr>) \<and>
            checked_in_at (new_attendance db db_now k (requested_method data)) = db_now \<and>
            mark_attendance S later (snd (mark_attendance S db_now db data)) data =
              (Inl AlreadyCheckedIn, tick (tick (snd (mark_attendance S db_now db data)))))"
      by blast
  qed
  have 3: "one_attendance_per_registration db \<longrightarrow> one_attendance_per_registration (run L S db rs)"
    using run_one_attendance by blast
  from 1 2 3 show ?thesis by simp
qed

theorem mark_attendance_contract_witness:
  "mark_attendance schema0 90 db2 att_req_a = (Inr (att_a, ''Hack night'', ''Asha''), db5) \<and>
   mark_attendance schema0 95 db5 att_req_a = (Inl AlreadyCheckedIn, tick (tick db5)) \<and>
   mark_attendance schema0 90 db3 att_req_a = (Inl RegistrationNotActive, tick db3) \<and>
   one_attendance_per_registration (run lib0 schema0 db2 [Attend 90 att_req_a, Attend 95 att_req_a])"
proof -
  have rid: "map_of att_req_a ''registration_id'' = Some (JStr rid_a)"
    by (simp add: att_req_a_def)
  have k: "bind_id schema0 (JStr rid_a) = Id 10"
    by (simp add: rid_a_def schema0_def demo_ids_def)
  have how: "requested_method att_req_a = JStr ''manual''"
    by (simp add: requested_method_def att_req_a_def)
  have new: "new_attendance db2 90 10 (JStr ''manual'') = att_a"
    "tick (tick (tick db2))\<lparr>attendances := [att_a], next_id := 13\<rparr> = db5"
    by (simp_all add: new_attendance_def att_a_def db5_def db2_def db0_def tick_def)
  have 1: "mark_attendance schema0 90 db2 att_req_a = (Inr (att_a, ''Hack night'', ''Asha''), db5)"
    using mark_attendance_contract [OF rid k, where db = db2 and db_now = 90]
    by (simp add: reg_a_def reg_b_def db0_def how valid_methods_def new)
  have 2: "mark_attendance schema0 95 db5 att_req_a = (Inl AlreadyCheckedIn, tick (tick db5))"
    using mark_attendance_contract [OF rid k, where db = db5 and db_now = 95]
    by (simp add: reg_a_def reg_b_def db0_def att_a_def)
  have 3: "mark_attendance schema0 90 db3 att_req_a = (Inl RegistrationNotActive, tick db3)"
    using mark_attendance_contract [OF rid k, where db = db3 and db_now = 90]
    by (simp add: reg_a_def reg_b_def cancelled_def)
  have 4: "one_attendance_per_registration (run lib0 schema0 db2 [Attend 90 att_req_a, Attend 95 att_req_a])"
    using mark_attendance_contract [OF rid k, where db = db2 and L = lib0
        and rs = "[Attend 90 att_req_a, Attend 95 att_req_a]"]
    by (simp add: one_attendance_per_registration_def)
  from 1 2 3 4 show ?thesis by simp
qed



text \<open>
  C7. For a path segment that the store reads as the identifier \<open>k\<close>:
  \<^verbatim>\<open>cancel_registration\<close> turns the registration \<open>k\<close> of status registered into a cancelled
  one, with the store's time as cancellation time and the reason 'Cancelled by user', and
  returns it; it answers 404 'Registration not found or already cancelled' and changes no
  row when no registration has the identifier and when the registration is not of status
  registered; and a second cancellation of the same registration, after any first one,
  gets that 404.
\<close>

theorem cancel_registration_contract:
  assumes "bind_id S (JStr rid) = Id k"
  shows
   "(\<forall>r. find (\<lambda>r. registration_id r = k \<and> reg_status r = ''registered'') (registrations db) = Some r \<longrightarrow>
       fst (cancel_registration S db_now db rid) = Inr (cancelled db_now r) \<and>
       reg_status (cancelled db_now r) = ''cancelled'' \<and>
       cancelled_at (cancelled db_now r) = Some db_now \<and>
       cancellation_reason (cancelled db_now r) = Some ''Cancelled by user'' \<and>
       registrations (snd (cancel_registration S db_now db rid)) =
         map (\<lambda>x. if registration_id x = k \<and> reg_status x = ''registered''
                   then cancelled db_now x else x) (registrations db)) \<and>
    (\<not> list_ex (\<lambda>r. registration_id r = k) (registrations db) \<longrightarrow>
       cancel_registration S db_now db rid = (Inl RegistrationNotFound, tick db)) \<and>
    (list_all (\<lambda>r. registration_id r = k \<longrightarrow> reg_status r \<noteq> ''registered'') (registrations db) \<longrightarrow>
       cancel_registration S db_now db rid = (Inl RegistrationNotFound, tick db)) \<and>
    status_code RegistrationNotFound = 404 \<and>
    cancel_registration S later (snd (cancel_registration S db_now db rid)) rid =
      (Inl RegistrationNotFound, tick (snd (cancel_registration S db_now db rid)))"
proof -
  note c = cancel_registration_bound [OF assms]
  have m: "cancel_matches k = (\<lambda>r. registration_id r = k \<and> reg_status r = ''registered'')"
    by (rule ext) (simp add: cancel_matches_def)
  have 1: "\<forall>r. find (\<lambda>r. registration_id r = k \<and> reg_status r = ''registered'') (registrations db) = Some r \<longrightarrow>
       fst (cancel_registration S db_now db rid) = Inr (cancelled db_now r) \<and>
       reg_status (cancelled db_now r) = ''cancelled'' \<and>
       cancelled_at (cancelled db_now r) = Some db_now \<and>
       cancellation_reason (cancelled db_now r) = Some ''Cancelled by user'' \<and>
       registrations (snd (cancel_registration S db_now db rid)) =
         map (\<lambda>x. if registration_id x = k \<and> reg_status x = ''registered''
                   then cancelled db_now x else x) (registrations db)"
    by (simp add: c m cancelled_def)
  have none: "cancel_registration S later db' rid = (Inl RegistrationNotFound, tick db')"
    if "\<not> list_ex (cancel_matches k) (registrations db')" for later db'
  proof -
    from that have "find (cancel_matches k) (registrations db') = None"
      by (simp add: find_None_list_ex)
    with that show ?thesis
      by (simp add: cancel_registration_bound [OF assms] map_no_match)
  qed
  have 2: "\<not> list_ex (\<lambda>r. registration_id r = k) (registrations db) \<longrightarrow>
       cancel_registration S db_now db rid = (Inl RegistrationNotFound, tick db)"
    using none by (auto simp: list_ex_iff cancel_matches_def)
  have 3: "list_all (\<lambda>r. registration_id r = k \<longrightarrow> reg_status r \<noteq> ''registered'') (registrations db) \<longrightarrow>
       cancel_registration S db_now db rid = (Inl RegistrationNotFound, tick db)"
    using none list_all_no_match by blast
  have "find (cancel_matches k) (registrations (snd (cancel_registration S db_now db rid))) = None"
    by (simp add: c find_cancel_after split: option.splits)
  then have after: "\<not> list_ex (cancel_matches k) (registrations (snd (cancel_registration S db_now db rid)))"
    by (simp add: find_None_list_ex)
  have 5: "cancel_registration S later (snd (cancel_registration S db_now db rid)) rid =
      (Inl RegistrationNotFound, tick (snd (cancel_registration S db_now db rid)))"
    using after by (rule none)
  from 1 2 3 5 show ?thesis by simp
qed

theorem cancel_registration_contract_witness:
  "cancel_registration schema0 70 (tick db2) rid_a = (Inr (cancelled 70 reg_a), db3) \<and>
   cancel_registration schema0 75 db3 rid_a = (Inl RegistrationNotFound, tick db3) \<and>
   cancel_registration schema0 75 db3 ''00000000-0000-0000-0000-0000000000ff'' =
     (Inl RegistrationNotFound, tick db3)"
proof -
  have a: "bind_id schema0 (JStr rid_a) = Id 10"
    by (simp add: rid_a_def schema0_def demo_ids_def)
  have f: "bind_id schema0 (JStr ''00000000-0000-0000-0000-0000000000ff'') = Id 255"
    by (simp add: schema0_def demo_ids_def)
  have 1: "cancel_registration schema0 70 (tick db2) rid_a = (Inr (cancelled 70 reg_a), db3)"
    by (rule demo_steps)
  have 2: "cancel_registration schema0 75 db3 rid_a = (Inl RegistrationNotFound, tick db3)"
    using cancel_registration_contract [OF a, where db = db3 and db_now = 75]
    by (simp add: reg_a_def reg_b_def cancelled_def)
  have 3: "cancel_registration schema0 75 db3 ''00000000-0000-0000-0000-0000000000ff'' =
     (Inl RegistrationNotFound, tick db3)"
    using cancel_registration_contract [OF f, where db = db3 and db_now = 75]
    by (simp add: reg_a_def reg_b_def cancelled_def)
  have "fst (cancel_registration schema0 70 (tick db2) rid_a) = Inr (cancelled 70 reg_a)"
    using cancel_registration_contract [OF a, where db = "tick db2" and db_now = 70]
    by (simp add: reg_a_def reg_b_def)
  with 1 2 3 show ?thesis by simp
qed

text \<open>
  C8. \<^verbatim>\<open>mark_attendance\<close> does not apply \<^verbatim>\<open>validate_attendance_data\<close>: a body with the
  check-in method 'teleport', which the validator rejects, reaches the store. For a
  registration that does not exist the handler answers 404 after its first query; for
  the registration of A it stores an attendance row with that method.
\<close>

theorem mark_attendance_skips_validation:
  "validate_attendance_data lib0 (teleport_request ''00000000-0000-0000-0000-0000000000ff'') =
     Invalid ''Invalid check-in method. Must be one of: manual, qr_code, rfid'' \<and>
   mark_attendance schema0 90 db2 (teleport_request ''00000000-0000-0000-0000-0000000000ff'') =
     (Inl RegistrationNotActive, tick db2) \<and>
   validate_attendance_data lib0 (teleport_request rid_a) =
     Invalid ''Invalid check-in method. Must be one of: manual, qr_code, rfid'' \<and>
   mark_attendance schema0 90 db2 (teleport_request rid_a) =
     (Inr (att_a\<lparr>check_in_method := JStr ''teleport''\<rparr>, ''Hack night'', ''Asha''),
      db5\<lparr>attendances := [att_a\<lparr>check_in_method := JStr ''teleport''\<rparr>]\<rparr>)"
  by code_simp

text \<open>
  C9. For event data that passes the checks placed before the deadline check (required
  fields, event type, title, start and end) and has a registration deadline that parses
  and can be compared with the start: \<^verbatim>\<open>validate_event_data\<close> rejects it with
  'Registration deadline must be before event start time' when the deadline is after the
  start, and goes on to the remaining checks when the deadline is at or before the start;
  a deadline equal to the start is accepted.
\<close>

theorem deadline_not_after_start:
  assumes "data \<noteq> []"
    and "find (absent_or_falsy data) (required_fields is_update) = None"
    and "dict_get data ''event_type'' \<in> set (map JStr valid_event_types)"
    and "dict_get data ''title'' = JStr t" and "length t \<le> 200"
    and "check_schedule L now data = Inr start_datetime"
    and "dict_get data ''registration_deadline'' = JStr d" and "d \<noteq> []"
    and "fromisoformat L (replace_Z d) = Some reg_deadline"
    and "comparable reg_deadline start_datetime"
  shows
   "(\<exists>s. dict_get data ''start_datetime'' = JStr s \<and>
         fromisoformat L (replace_Z s) = Some start_datetime) \<and>
    (instant start_datetime < instant reg_deadline \<longrightarrow>
       validate_event_data L now is_update data =
         Invalid ''Registration deadline must be before event start time'') \<and>
    (instant reg_deadline \<le> instant start_datetime \<longrightarrow>
       validate_event_data L now is_update data = check_optional L data) \<and>
    (instant reg_deadline = instant start_datetime \<and>
     check_optional L data = Valid ''Valid event data'' \<longrightarrow>
       validate_event_data L now is_update data = Valid ''Valid event data'')"
proof -
  note v = validate_event_data_scheduled [OF assms(1-6)]
  have dl: "check_deadline L start_datetime data =
      (if instant start_datetime < instant reg_deadline
       then Some (Invalid ''Registration deadline must be before event start time'')
       else None)"
    using assms(7-10) by (simp add: check_deadline_def)
  from check_schedule_start [OF assms(6)] v dl show ?thesis
    by auto
qed

theorem deadline_not_after_start_witness:
  "validate_event_data lib0 0 False (event_request ''2030-05-01T10:00:00'') =
     Valid ''Valid event data'' \<and>
   validate_event_data lib0 0 False (event_request ''2030-05-01T09:00:00'') =
     Valid ''Valid event data'' \<and>
   validate_event_data lib0 0 False (event_request ''2030-05-01T12:00:00'') =
     Invalid ''Registration deadline must be before event start time''"
proof -
  have ne: "''2030-05-01T10:00:00'' \<noteq> []" "''2030-05-01T09:00:00'' \<noteq> []"
    "''2030-05-01T12:00:00'' \<noteq> []"
    by simp_all
  have cmp: "comparable \<lparr>wall = w, utcoffset = None\<rparr> \<lparr>wall = w', utcoffset = None\<rparr>" for w w'
    by (simp add: comparable_def)
  note e = demo_event_request
  have 1: "validate_event_data lib0 0 False (event_request ''2030-05-01T10:00:00'') =
     Valid ''Valid event data''"
    using deadline_not_after_start [OF e(1-7) ne(1) demo_deadlines(1) cmp]
    by (simp add: instant_def e)
  have 2: "validate_event_data lib0 0 False (event_request ''2030-05-01T09:00:00'') =
     Valid ''Valid event data''"
    using deadline_not_after_start [OF e(1-7) ne(2) demo_deadlines(3) cmp]
    by (simp add: instant_def e hour_def)
  have 3: "validate_event_data lib0 0 False (event_request ''2030-05-01T12:00:00'') =
     Invalid ''Registration deadline must be before event start time''"
    using deadline_not_after_start [OF e(1-7) ne(3) demo_deadlines(2) cmp]
    by (simp add: instant_def hour_def)
  from 1 2 3 show ?thesis by simp
qed

text \<open>
  C10. A feedback body whose rating is an integer from 1 to 5 and whose comment, in lower
  case, contains 'spam', 'hate' or 'abuse' is invalid for \<^verbatim>\<open>validate_feedback_data\<close>, and
  \<^verbatim>\<open>submit_feedback\<close> answers 400 with the validator's message without a single call to
  the store; when the checks before it pass (the attendance identifier is there and well
  formed, the comment has at most 1000 characters) the message is 'Comment contains
  inappropriate content'.
\<close>

theorem inappropriate_comment_rejected:
  assumes "map_of data ''rating'' = Some v" and "py_int L v = Some r" and "1 \<le> r" and "r \<le> 5"
    and "map_of data ''comment'' = Some (JStr c)"
    and "\<exists>w\<in>set inappropriate_words. \<exists>p q. lower c = p @ w @ q"
  shows
   "(\<exists>msg. validate_feedback_data L data = Invalid msg \<and>
       submit_feedback L S db_now db data = (Inl (ValidationError msg), db) \<and>
       status_code (ValidationError msg) = 400) \<and>
    (\<forall>aid. map_of data ''attendance_id'' = Some aid \<and> aid \<noteq> JNull \<and> uuid_ok L aid \<and>
       length c \<le> 1000 \<longrightarrow>
         validate_feedback_data L data = Invalid ''Comment contains inappropriate content'')"
proof -
  have bad: "list_ex (\<lambda>w. contains w (lower c)) inappropriate_words"
    using assms(6) by (simp add: list_ex_iff contains_iff)
  from validate_feedback_bad_comment [OF assms(1-5) bad]
  obtain msg where msg: "validate_feedback_data L data = Invalid msg" by blast
  have 1: "\<exists>msg. validate_feedback_data L data = Invalid msg \<and>
       submit_feedback L S db_now db data = (Inl (ValidationError msg), db) \<and>
       status_code (ValidationError msg) = 400"
    using msg submit_feedback_invalid [OF msg] by simp
  have ne: "c \<noteq> []"
    using bad by (auto simp: inappropriate_words_def lower_def)
  have 2: "\<forall>aid. map_of data ''attendance_id'' = Some aid \<and> aid \<noteq> JNull \<and> uuid_ok L aid \<and>
       length c \<le> 1000 \<longrightarrow>
         validate_feedback_data L data = Invalid ''Comment contains inappropriate content''"
    using assms(1-5) bad ne
    by (auto simp: validate_feedback_rated dict_get_Some check_comment_def)
  from 1 2 show ?thesis by blast
qed

theorem inappropriate_comment_rejected_witness:
  "validate_feedback_data lib0 (feedback_request aid_a 5 ''Buy SPAM now'') =
     Invalid ''Comment contains inappropriate content'' \<and>
   submit_feedback lib0 schema0 95 db5 (feedback_request aid_a 5 ''Buy SPAM now'') =
     (Inl (ValidationError ''Comment contains inappropriate content''), db5)"
proof -
  note d = demo_feedback demo_comments demo_attendance_ids
  have r: "py_int lib0 (JInt 5) = Some 5" "(1::int) \<le> 5" "(5::int) \<le> 5"
    by simp_all
  have "lower ''Buy SPAM now'' = ''buy '' @ ''spam'' @ '' now''"
    by (simp add: d)
  then have bad: "\<exists>w\<in>set inappropriate_words. \<exists>p q. lower ''Buy SPAM now'' = p @ w @ q"
    unfolding inappropriate_words_def by (metis list.set_intros(1))
  from inappropriate_comment_rejected [OF demo_feedback(2) [of aid_a 5 "''Buy SPAM now''"] r d(3) bad,
      where S = schema0 and db_now = 95 and db = db5]
  show ?thesis
    by (auto simp: d)
qed

end
